theory Spec2Isabelle
  imports Complex_Main
begin

section \<open>Numbers\<close>

text \<open>
  JavaScript numbers are modelled by \<^typ>\<open>real\<close>: the finite doubles, with exact
  arithmetic. \<open>NaN\<close> and the infinities are values of the small type \<open>ext\<close>
  below, which is used where the source divides by a number that nothing keeps away
  from zero and then only tests the result (the grid strategy). Elsewhere a division
  of the source is a division of reals, and the theorems that depend on it carry the
  hypothesis that the divisor is not zero.
\<close>

definition Math_round :: "real \<Rightarrow> real" where
  \<comment> \<open>\<open>Math.round\<close>: the nearest integer, a tie going towards \<open>+\<infinity>\<close>.\<close>
  "Math_round x = of_int \<lfloor>x + 1 / 2\<rfloor>"

definition Math_floor :: "real \<Rightarrow> real" where
  "Math_floor x = of_int \<lfloor>x\<rfloor>"

datatype ext = Fin real | PInf | NInf | NaN

definition js_div :: "real \<Rightarrow> real \<Rightarrow> ext" where
  \<comment> \<open>\<open>x / y\<close> on finite operands; the sign of a zero is not modelled.\<close>
  "js_div x y =
     (if y \<noteq> 0 then Fin (x / y)
      else if 0 < x then PInf else if x < 0 then NInf else NaN)"

definition js_div_ext :: "real \<Rightarrow> ext \<Rightarrow> ext" where
  \<comment> \<open>\<open>x / y\<close> for a finite \<open>x\<close> and a \<open>y\<close> that may be infinite or \<open>NaN\<close>.\<close>
  "js_div_ext x y =
     (case y of Fin r \<Rightarrow> js_div x r | PInf \<Rightarrow> Fin 0 | NInf \<Rightarrow> Fin 0 | NaN \<Rightarrow> NaN)"

definition js_floor :: "ext \<Rightarrow> ext" where
  "js_floor v = (case v of Fin r \<Rightarrow> Fin (Math_floor r) | _ \<Rightarrow> v)"

definition js_trunc :: "real \<Rightarrow> int" where
  "js_trunc q = (if 0 \<le> q then \<lfloor>q\<rfloor> else \<lceil>q\<rceil>)"

definition js_rem :: "ext \<Rightarrow> real \<Rightarrow> ext" where
  \<comment> \<open>\<open>v % m\<close> for a finite non-zero \<open>m\<close>: the remainder has the sign of the dividend;
      the remainder of an infinity or of \<open>NaN\<close> is \<open>NaN\<close>.\<close>
  "js_rem v m =
     (case v of Fin r \<Rightarrow> Fin (r - m * of_int (js_trunc (r / m))) | _ \<Rightarrow> NaN)"

section \<open>The ledger (the tradingMode module)\<close>

datatype TradingMode = demo | live

record TradingModeStore =
  mode :: TradingMode
  balance :: "TradingMode \<Rightarrow> string \<rightharpoonup> real"

definition DEFAULT_DEMO_BALANCE :: real where
  "DEFAULT_DEMO_BALANCE = 100000"

definition initial_store :: TradingModeStore where
  "initial_store =
     \<lparr> mode = demo,
       balance = (\<lambda>m. case m of
                    demo \<Rightarrow> [''USDT'' \<mapsto> DEFAULT_DEMO_BALANCE]
                  | live \<Rightarrow> [''USDT'' \<mapsto> 0, ''BTC'' \<mapsto> 0, ''ETH'' \<mapsto> 0]) \<rparr>"

definition or_zero :: "real option \<Rightarrow> real" where
  \<comment> \<open>\<open>v || 0\<close>: a missing entry and a zero entry both give 0.\<close>
  "or_zero v = (case v of None \<Rightarrow> 0 | Some r \<Rightarrow> if r = 0 then 0 else r)"

definition updateBalance :: "string \<Rightarrow> real \<Rightarrow> TradingModeStore \<Rightarrow> TradingModeStore" where
  "updateBalance currency amount state =
     (let m = mode state in
      state\<lparr> balance := (balance state)
               (m := (balance state m)
                  (currency \<mapsto> max 0 (or_zero (balance state m currency) + amount))) \<rparr>)"

definition getBalance :: "string \<Rightarrow> TradingModeStore \<Rightarrow> real" where
  "getBalance currency state = or_zero (balance state (mode state) currency)"

definition setMode :: "TradingMode \<Rightarrow> bool \<Rightarrow> bool \<Rightarrow> TradingModeStore \<Rightarrow> TradingModeStore" where
  \<comment> \<open>\<open>accountSet\<close> says that \<open>activeAccountId\<close> is set, \<open>userAgreed\<close> is the answer to
      \<open>window.confirm\<close>; both are only asked for on the way to live mode. \<open>set({ mode })\<close>
      leaves the balances as they are. The reports \<open>setMode\<close> emits are not part of the
      ledger.\<close>
  "setMode m accountSet userAgreed state =
     (if m = live \<and> (\<not> accountSet \<or> \<not> userAgreed) then state else state\<lparr> mode := m \<rparr>)"

fun updateBalance_calls :: "(string \<times> real) list \<Rightarrow> TradingModeStore \<Rightarrow> TradingModeStore" where
  "updateBalance_calls [] state = state"
| "updateBalance_calls ((currency, amount) # calls) state =
     updateBalance_calls calls (updateBalance currency amount state)"

definition balances_nonneg :: "TradingModeStore \<Rightarrow> bool" where
  "balances_nonneg state = (\<forall>m currency v. balance state m currency = Some v \<longrightarrow> 0 \<le> v)"

section \<open>Helper functions of the bot engine\<close>

definition calculateTradeAmount :: "real \<Rightarrow> real \<Rightarrow> real \<Rightarrow> real" where
  \<comment> \<open>Nothing in the \<open>try\<close> block throws, so the \<open>catch\<close> branch is never taken.\<close>
  "calculateTradeAmount maxPositionSize currentPrice availableBalance =
     (let maxAmount = availableBalance / currentPrice in
      if maxPositionSize < currentPrice then min 1 maxAmount
      else (let amount = Math_floor (maxPositionSize / currentPrice) in min amount maxAmount))"

definition calculateWinRate :: "real \<Rightarrow> real \<Rightarrow> bool \<Rightarrow> real" where
  "calculateWinRate currentWinRate totalTrades isWin =
     (let totalWins = (currentWinRate * totalTrades + (if isWin then 100 else 0)) / (totalTrades + 1)
      in Math_round (totalWins * 100) / 100)"


section \<open>Strategies\<close>

record kline =
  k_time :: real
  k_open :: real
  k_high :: real
  k_low :: real
  close :: real
  k_volume :: real

text \<open>
  The snapshot handed to \<open>analyze\<close>. The source types it \<open>any\<close>: \<open>price\<close> is
  \<open>None\<close> when the field is missing (\<open>undefined\<close>, \<open>null\<close>), and \<open>klines\<close> is
  \<open>None\<close> when the field is not an array.
\<close>

record MarketSnapshot =
  price :: "real option"
  klines :: "kline list option"
  volume :: real
  timestamp :: real

datatype thrown =
    InvalidMarketData  \<comment> \<open>thrown by \<open>validateData\<close>\<close>
  | NoCurrentPrice     \<comment> \<open>thrown by the tick when \<open>ws.marketData.price\<close> is falsy\<close>
  | TypeError          \<comment> \<open>reading a property of \<open>undefined\<close>\<close>

datatype side = buy | sell

datatype action = strong_buy | action_buy | hold | action_sell | strong_sell

record recommendation =
  rec_symbol :: string
  rec_action :: action
  confidence :: real
  rec_price :: real

datatype signal =
    Str side  \<comment> \<open>the strings \<open>'buy'\<close> and \<open>'sell'\<close>\<close>
  | Obj "recommendation list" "recommendation list"  \<comment> \<open>\<open>{buy, sell, timestamp}\<close>\<close>

type_synonym analysis = "thrown + signal option"  \<comment> \<open>\<open>None\<close> is \<open>null\<close>: no signal\<close>

definition validateData :: "MarketSnapshot option \<Rightarrow> thrown + (real \<times> kline list)" where
  \<comment> \<open>Throws unless the snapshot is there, its price is truthy and its klines are an
      array; the model returns the two fields the callers then read.\<close>
  "validateData marketData =
     (case marketData of
        None \<Rightarrow> Inl InvalidMarketData
      | Some d \<Rightarrow>
          (case price d of
             None \<Rightarrow> Inl InvalidMarketData
           | Some p \<Rightarrow>
               if p = 0 then Inl InvalidMarketData
               else (case klines d of
                       None \<Rightarrow> Inl InvalidMarketData
                     | Some ks \<Rightarrow> Inr (p, ks))))"

subsection \<open>MA-Cross\<close>

definition slice_neg :: "nat \<Rightarrow> 'a list \<Rightarrow> 'a list" where
  \<comment> \<open>\<open>xs.slice(-period)\<close>: the last \<open>period\<close> elements, all of them when there are
      fewer, and all of them when \<open>period\<close> is 0 (\<open>-0\<close> is the start index 0).\<close>
  "slice_neg period xs = (if period = 0 then xs else drop (length xs - period) xs)"

definition calculateMA :: "real list \<Rightarrow> nat \<Rightarrow> real" where
  "calculateMA prices period =
     foldl (\<lambda>sum price. sum + price) 0 (slice_neg period prices) / real period"

definition MACross_analyze :: "nat \<Rightarrow> nat \<Rightarrow> MarketSnapshot option \<Rightarrow> analysis" where
  "MACross_analyze fastPeriod slowPeriod marketData =
     (case validateData marketData of
        Inl e \<Rightarrow> Inl e
      | Inr (p, ks) \<Rightarrow>
          if length ks < slowPeriod then Inr None
          else (let prices = map close ks;
                    fastMA = calculateMA prices fastPeriod;
                    slowMA = calculateMA prices slowPeriod
                in if fastMA > slowMA then Inr (Some (Str buy))
                   else if fastMA < slowMA then Inr (Some (Str sell))
                   else Inr None))"


subsection \<open>RSI\<close>

function rsi_loop :: "real list \<Rightarrow> nat \<Rightarrow> real \<Rightarrow> real \<Rightarrow> real \<times> real" where
  "rsi_loop prices i gains losses =
     (if i < length prices then
        (let difference = prices ! i - prices ! (i - 1) in
         if difference \<ge> 0 then rsi_loop prices (i + 1) (gains + difference) losses
         else rsi_loop prices (i + 1) gains (losses - difference))
      else (gains, losses))"
  by pat_completeness auto
termination
  by (relation "measure (\<lambda>(prices, i, gains, losses). length prices - i)") auto

declare rsi_loop.simps [simp del]

definition calculateRSI :: "real list \<Rightarrow> real" where
  "calculateRSI prices =
     (case rsi_loop prices 1 0 0 of
        (gains, losses) \<Rightarrow>
          if losses = 0 then 100
          else (let relativeStrength = gains / losses in 100 - 100 / (1 + relativeStrength)))"

definition rsi_signal :: "real \<Rightarrow> real \<Rightarrow> real \<Rightarrow> signal option" where
  "rsi_signal overbought oversold rsi =
     (if rsi \<le> oversold then Some (Str buy)
      else if rsi \<ge> overbought then Some (Str sell)
      else None)"

definition RSI_analyze :: "nat \<Rightarrow> real \<Rightarrow> real \<Rightarrow> MarketSnapshot option \<Rightarrow> analysis" where
  "RSI_analyze period overbought oversold marketData =
     (case validateData marketData of
        Inl e \<Rightarrow> Inl e
      | Inr (p, ks) \<Rightarrow>
          if length ks < period + 1 then Inr None
          else (let prices = map close ks; rsi = calculateRSI prices
                in Inr (rsi_signal overbought oversold rsi)))"




subsection \<open>Grid\<close>

record GridStrategy =
  upperPrice :: real
  lowerPrice :: real
  gridLines :: real
  gridSize :: ext

definition GridStrategy_new :: "real \<Rightarrow> real \<Rightarrow> real \<Rightarrow> GridStrategy" where
  "GridStrategy_new upper lower lines =
     \<lparr> upperPrice = upper, lowerPrice = lower, gridLines = lines,
       gridSize = js_div (upper - lower) lines \<rparr>"

definition Grid_analyze :: "GridStrategy \<Rightarrow> MarketSnapshot option \<Rightarrow> analysis" where
  "Grid_analyze this marketData =
     (case validateData marketData of
        Inl e \<Rightarrow> Inl e
      | Inr (currentPrice, ks) \<Rightarrow>
          (let gridPosition = js_floor (js_div_ext (currentPrice - lowerPrice this) (gridSize this))
           in if js_rem gridPosition 2 = Fin 0 then Inr (Some (Str buy))
              else Inr (Some (Str sell))))"

subsection \<open>ML-Trend and Deep-Learning\<close>

text \<open>The two draws of \<open>Math.random()\<close> are arguments of the model.\<close>

definition MLTrend_analyze :: "real \<Rightarrow> real \<Rightarrow> real \<Rightarrow> MarketSnapshot option \<Rightarrow> analysis" where
  "MLTrend_analyze confidenceThreshold prediction conf marketData =
     (case validateData marketData of
        Inl e \<Rightarrow> Inl e
      | Inr (p, ks) \<Rightarrow>
          if conf > confidenceThreshold
          then Inr (Some (Str (if prediction > 1 / 2 then buy else sell)))
          else Inr None)"

definition DeepLearning_analyze :: "real \<Rightarrow> MarketSnapshot option \<Rightarrow> analysis" where
  "DeepLearning_analyze prediction marketData =
     (case validateData marketData of
        Inl e \<Rightarrow> Inl e
      | Inr (p, ks) \<Rightarrow> Inr (Some (Str (if prediction > 1 / 2 then buy else sell))))"

subsection \<open>Multi-Coin\<close>

record MultiCoinStrategy =
  confidenceThreshold :: real
  maxPositions :: int
  updateInterval :: real
  lastUpdate :: real
  activeSymbols :: "string set"

definition slice0 :: "int \<Rightarrow> 'a list \<Rightarrow> 'a list" where
  \<comment> \<open>\<open>xs.slice(0, n)\<close>: a negative \<open>n\<close> counts from the end.\<close>
  "slice0 n xs = (if n < 0 then take (length xs - nat (- n)) xs else take (nat n) xs)"

definition MultiCoin_analyze ::
  "MultiCoinStrategy \<Rightarrow> real \<Rightarrow> recommendation list option \<Rightarrow> signal option \<times> MultiCoinStrategy" where
  \<comment> \<open>\<open>now\<close> is \<open>Date.now()\<close>. \<open>ai\<close> is what the recommendation service and
      \<open>parseRecommendations\<close> deliver: \<open>None\<close> when the import, the request or the
      content check throws. Everything runs inside \<open>try\<close>, and the \<open>catch\<close> returns
      \<open>null\<close>; the snapshot is not looked at.\<close>
  "MultiCoin_analyze this now ai =
     (if now - lastUpdate this < updateInterval this then (None, this)
      else case ai of
        None \<Rightarrow> (None, this)
      | Some recommendations \<Rightarrow>
          (let sortedRecommendations = sort_key (\<lambda>r. - confidence r) recommendations;
               highConfidenceBuys = filter (\<lambda>r.
                  confidence r \<ge> confidenceThreshold this
                  \<and> (rec_action r = strong_buy \<or> rec_action r = action_buy)
                  \<and> rec_symbol r \<notin> activeSymbols this) sortedRecommendations;
               shouldSell = filter (\<lambda>r.
                  rec_symbol r \<in> activeSymbols this
                  \<and> (rec_action r = action_sell \<or> rec_action r = strong_sell
                       \<or> confidence r < confidenceThreshold this)) sortedRecommendations
           in (Some (Obj (slice0 (maxPositions this - int (card (activeSymbols this))) highConfidenceBuys)
                         shouldSell),
               this\<lparr> lastUpdate := now \<rparr>)))"

definition updateActiveSymbols :: "string \<Rightarrow> bool \<Rightarrow> MultiCoinStrategy \<Rightarrow> MultiCoinStrategy" where
  "updateActiveSymbols sy isActive this =
     (if isActive then this\<lparr> activeSymbols := insert sy (activeSymbols this) \<rparr>
      else this\<lparr> activeSymbols := activeSymbols this - {sy} \<rparr>)"

subsection \<open>The strategy objects of \<open>createStrategy\<close>\<close>

datatype strategy_object =
    MACross nat nat
  | RSI nat real real
  | Grid GridStrategy
  | MLTrend real
  | DeepLearning
  | MultiCoin MultiCoinStrategy

text \<open>What one call of \<open>analyze\<close> draws from outside the program.\<close>

record draws =
  prediction :: real
  conf :: real
  now :: real
  ai :: "recommendation list option"

definition analyze :: "strategy_object \<Rightarrow> draws \<Rightarrow> MarketSnapshot option \<Rightarrow> analysis \<times> strategy_object" where
  "analyze strat orc marketData =
     (case strat of
        MACross fastPeriod slowPeriod \<Rightarrow> (MACross_analyze fastPeriod slowPeriod marketData, strat)
      | RSI period overbought oversold \<Rightarrow> (RSI_analyze period overbought oversold marketData, strat)
      | Grid g \<Rightarrow> (Grid_analyze g marketData, strat)
      | MLTrend threshold \<Rightarrow> (MLTrend_analyze threshold (prediction orc) (conf orc) marketData, strat)
      | DeepLearning \<Rightarrow> (DeepLearning_analyze (prediction orc) marketData, strat)
      | MultiCoin mc \<Rightarrow>
          (case MultiCoin_analyze mc (now orc) (ai orc) of (r, mc') \<Rightarrow> (Inr r, MultiCoin mc')))"

section \<open>Example snapshots\<close>

definition kline_of_close :: "real \<Rightarrow> kline" where
  "kline_of_close c = \<lparr> k_time = 0, k_open = c, k_high = c, k_low = c, close = c, k_volume = 0 \<rparr>"

definition snapshot_of :: "real \<Rightarrow> real list \<Rightarrow> MarketSnapshot" where
  "snapshot_of p closes =
     \<lparr> price = Some p, klines = Some (map kline_of_close closes), volume = 0, timestamp = 0 \<rparr>"

definition some_draws :: draws where
  "some_draws = \<lparr> prediction = 1, conf = 1, now = 0, ai = None \<rparr>"

section \<open>The bot registry and the strategy executor (the tradingBot module)\<close>

subsection \<open>Data\<close>

datatype BotStrategy = ma_cross | rsi | grid | ml_trend | deep_learning | multi_coin

datatype BotStatus = running | stopped | error | training

text \<open>
  \<open>config.parameters\<close> is typed \<open>any\<close>; the record holds the fields the strategy
  constructors read. A field that is missing or 0 is 0 here, which is what the
  \<open>||\<close> defaults of the Multi-Coin constructor test.
\<close>

record parameters =
  p_fastPeriod :: nat
  p_slowPeriod :: nat
  p_period :: nat
  p_overbought :: real
  p_oversold :: real
  p_upperPrice :: real
  p_lowerPrice :: real
  p_gridLines :: real
  p_confidenceThreshold :: real
  p_maxPositions :: int
  p_updateInterval :: real

record config =
  symbol :: string
  maxPositionSize :: real
  stopLoss :: real
  takeProfit :: real
  parameters :: parameters

record trade =
  time :: real
  trade_type :: side
  trade_price :: real
  trade_amount :: real
  pnl :: real
  trade_strategy :: BotStrategy

record performance =
  startTime :: "real option"
  totalTrades :: real
  winRate :: real
  profitLoss :: real
  lastUpdate :: real
  trades :: "trade list"

text \<open>
  \<open>cleanup\<close> is the function returned by \<open>startStrategyExecutor\<close>; the model stores
  the number of the executor whose closure it is.
\<close>

record TradingBot =
  bot_id :: string
  bot_name :: string
  strategy :: BotStrategy
  status :: BotStatus
  config :: config
  performance :: performance
  cleanup :: "nat option"

record position =
  entryPrice :: real
  amount :: real
  pos_timestamp :: real

text \<open>
  The variables one call of \<open>startStrategyExecutor\<close> closes over. \<open>bot\<close> is the address
  of the object that was passed in; \<open>positions\<close> is the \<open>Map\<close>, in insertion order;
  \<open>interval_active\<close> says that the timer made by \<open>setInterval\<close> has not been cleared.
\<close>

record executor =
  bot :: nat
  strategy_obj :: strategy_object
  positions :: "(string \<times> position) list"
  lastTradeTime :: real
  lastError :: real
  consecutiveErrors :: nat
  interval_active :: bool

datatype ErrorSeverity = low | medium | high | critical

datatype message =
    Bot_not_found
  | Connecting_to_market_server
  | Fetching_market_data
  | Waiting_for_market_data
  | Assessing_risk
  | Initialising_strategy
  | Starting_executor
  | Bot_started
  | Bot_start_failed
  | Bot_stopped
  | Stop_failed
  | Stopped_after_consecutive_errors
  | Strategy_execution_error

text \<open>
  The state of the program. Bot objects live in \<open>heap\<close>, at addresses below
  \<open>next_addr\<close>; \<open>bots\<close> is the array \<open>state.bots\<close> of the registry, an array of
  references. \<open>reports\<close> lists the calls of \<open>errorHandler.handleError\<close>, oldest first.
\<close>

record system =
  heap :: "nat \<Rightarrow> TradingBot"
  next_addr :: nat
  bots :: "nat list"
  executors :: "nat \<Rightarrow> executor"
  next_executor :: nat
  ledger :: TradingModeStore
  reports :: "(ErrorSeverity \<times> message) list"

text \<open>
  What a timer callback or a call of \<open>stopBot\<close> reads from outside the registry:
  the fields of the \<open>ws\<close> and \<open>tradingMode\<close> objects the executor holds, the clock, and
  the draws of the two calls of \<open>analyze\<close>. They are arguments of every step, so nothing
  is assumed about when the store library lets those objects change: \<open>tm_mode\<close> is
  whatever \<open>tradingMode.mode\<close> evaluates to in the guards, while \<open>updateBalance\<close> and
  \<open>getBalance\<close> use the mode of the ledger itself, as they read it with \<open>get()\<close>.
  The executor takes \<open>tradingMode = useTradingMode.getState()\<close> once, when it is
  started, and \<open>setMode\<close> does not write to that object (\<open>set({ mode })\<close> puts a new
  state object into the store), so the two modes differ after a switch of the store.
\<close>

record env =
  ws_isConnected :: bool
  ws_price :: "real option"
  ws_klines :: "kline list option"
  ws_volume :: real
  tm_mode :: TradingMode
  date_now :: real
  draws1 :: draws
  draws2 :: draws

subsection \<open>Registry operations\<close>

definition handleError :: "message \<Rightarrow> ErrorSeverity \<Rightarrow> system \<Rightarrow> system" where
  "handleError msg severity st = st\<lparr> reports := reports st @ [(severity, msg)] \<rparr>"

definition getBotById :: "string \<Rightarrow> system \<Rightarrow> nat option" where
  "getBotById i st = find (\<lambda>a. bot_id (heap st a) = i) (bots st)"

definition alloc :: "TradingBot \<Rightarrow> system \<Rightarrow> nat \<times> system" where
  \<comment> \<open>An object literal: a new object at a fresh address.\<close>
  "alloc b st = (next_addr st, st\<lparr> heap := (heap st)(next_addr st := b), next_addr := next_addr st + 1 \<rparr>)"

fun map_bots :: "string \<Rightarrow> (TradingBot \<Rightarrow> TradingBot) \<Rightarrow> nat list \<Rightarrow> system \<Rightarrow> nat list \<times> system" where
  \<comment> \<open>\<open>bots.map(b => b.id === id ? {...b, changes} : b)\<close>\<close>
  "map_bots i f [] st = ([], st)"
| "map_bots i f (a # as) st =
     (if bot_id (heap st a) = i
      then (case alloc (f (heap st a)) st of (a', st1) \<Rightarrow>
              (case map_bots i f as st1 of (as', st2) \<Rightarrow> (a' # as', st2)))
      else (case map_bots i f as st of (as', st2) \<Rightarrow> (a # as', st2)))"

definition set_bots :: "string \<Rightarrow> (TradingBot \<Rightarrow> TradingBot) \<Rightarrow> system \<Rightarrow> system" where
  \<comment> \<open>\<open>set((state) => ({ bots: state.bots.map(...) }))\<close>\<close>
  "set_bots i f st = (case map_bots i f (bots st) st of (bs, st') \<Rightarrow> st'\<lparr> bots := bs \<rparr>)"

definition updateBotPerformance ::
  "string \<Rightarrow> (performance \<Rightarrow> performance) \<Rightarrow> real \<Rightarrow> system \<Rightarrow> system" where
  \<comment> \<open>\<open>merge\<close> is the spread of the partial performance over the stored one.\<close>
  "updateBotPerformance i merge t st =
     set_bots i (\<lambda>b. b\<lparr> performance := (merge (performance b))\<lparr> lastUpdate := t \<rparr> \<rparr>) st"

record botData =
  new_name :: string
  new_strategy :: BotStrategy
  new_config :: config

definition createBot :: "botData \<Rightarrow> string \<Rightarrow> real \<Rightarrow> system \<Rightarrow> system" where
  \<comment> \<open>\<open>new_id\<close> is \<open>Date.now().toString()\<close>.\<close>
  "createBot d new_id t st =
     (case alloc \<lparr> bot_id = new_id, bot_name = new_name d, strategy = new_strategy d,
                   status = stopped, config = new_config d,
                   performance = \<lparr> startTime = None, totalTrades = 0, winRate = 0, profitLoss = 0,
                                   lastUpdate = t, trades = [] \<rparr>,
                   cleanup = None \<rparr> st
      of (a, st1) \<Rightarrow> st1\<lparr> bots := bots st1 @ [a] \<rparr>)"

definition or_default :: "real \<Rightarrow> real \<Rightarrow> real" where
  "or_default v d = (if v = 0 then d else v)"

definition createStrategy :: "BotStrategy \<Rightarrow> parameters \<Rightarrow> strategy_object" where
  "createStrategy strategyType ps =
     (case strategyType of
        ma_cross \<Rightarrow> MACross (p_fastPeriod ps) (p_slowPeriod ps)
      | rsi \<Rightarrow> RSI (p_period ps) (p_overbought ps) (p_oversold ps)
      | grid \<Rightarrow> Grid (GridStrategy_new (p_upperPrice ps) (p_lowerPrice ps) (p_gridLines ps))
      | ml_trend \<Rightarrow> MLTrend (p_confidenceThreshold ps)
      | deep_learning \<Rightarrow> DeepLearning
      | multi_coin \<Rightarrow> MultiCoin
          \<lparr> confidenceThreshold = or_default (p_confidenceThreshold ps) (3 / 10),
            maxPositions = (if p_maxPositions ps = 0 then 5 else p_maxPositions ps),
            updateInterval = or_default (p_updateInterval ps) (15 * 60 * 1000),
            lastUpdate = 0,
            activeSymbols = {} \<rparr>)"

subsection \<open>The executor\<close>

definition upd_exec :: "nat \<Rightarrow> (executor \<Rightarrow> executor) \<Rightarrow> system \<Rightarrow> system" where
  "upd_exec eid f st = st\<lparr> executors := (executors st)(eid := f (executors st eid)) \<rparr>"

definition the_bot :: "nat \<Rightarrow> system \<Rightarrow> TradingBot" where
  \<comment> \<open>The object the closure's variable \<open>bot\<close> refers to.\<close>
  "the_bot eid st = heap st (bot (executors st eid))"

definition base_currency :: "string \<Rightarrow> string" where
  \<comment> \<open>\<open>symbol.split('/')[0]\<close>\<close>
  "base_currency sy = takeWhile (\<lambda>c. c \<noteq> CHR ''/'') sy"

definition map_set :: "string \<Rightarrow> position \<Rightarrow> (string \<times> position) list \<Rightarrow> (string \<times> position) list" where
  "map_set k v m =
     (if k \<in> fst ` set m then map (\<lambda>(k', v'). if k' = k then (k', v) else (k', v')) m
      else m @ [(k, v)])"

definition map_delete :: "string \<Rightarrow> (string \<times> position) list \<Rightarrow> (string \<times> position) list" where
  "map_delete k m = filter (\<lambda>(k', v'). k' \<noteq> k) m"

definition on_MultiCoin :: "(MultiCoinStrategy \<Rightarrow> MultiCoinStrategy) \<Rightarrow> strategy_object \<Rightarrow> strategy_object" where
  \<comment> \<open>A method call on the strategy object of a multi-coin bot, which is a
      \<open>MultiCoinStrategy\<close>.\<close>
  "on_MultiCoin f s = (case s of MultiCoin mc \<Rightarrow> MultiCoin (f mc) | _ \<Rightarrow> s)"

definition sell_merge :: "performance \<Rightarrow> trade \<Rightarrow> performance \<Rightarrow> performance" where
  \<comment> \<open>The partial performance of a sale, computed from \<open>bot.performance\<close> (here \<open>p0\<close>).\<close>
  "sell_merge p0 t p =
     p\<lparr> totalTrades := totalTrades p0 + 1,
        profitLoss := profitLoss p0 + pnl t,
        winRate := calculateWinRate (winRate p0) (totalTrades p0) (pnl t > 0),
        trades := take 100 (t # trades p0) \<rparr>"

definition buy_merge :: "performance \<Rightarrow> trade \<Rightarrow> performance \<Rightarrow> performance" where
  "buy_merge p0 t p =
     p\<lparr> totalTrades := totalTrades p0 + 1,
        trades := take 100 (t # trades p0) \<rparr>"

definition credit :: "string \<Rightarrow> real \<Rightarrow> real \<Rightarrow> system \<Rightarrow> system" where
  \<comment> \<open>\<open>updateBalance('USDT', proceeds); updateBalance(base, -amount)\<close>\<close>
  "credit sy proceeds amt st =
     st\<lparr> ledger := updateBalance (base_currency sy) (- amt) (updateBalance ''USDT'' proceeds (ledger st)) \<rparr>"

definition debit :: "string \<Rightarrow> real \<Rightarrow> real \<Rightarrow> system \<Rightarrow> system" where
  \<comment> \<open>\<open>updateBalance('USDT', -cost); updateBalance(base, tradeAmount)\<close>\<close>
  "debit sy cost amt st =
     st\<lparr> ledger := updateBalance (base_currency sy) amt (updateBalance ''USDT'' (- cost) (ledger st)) \<rparr>"

definition record_sell :: "nat \<Rightarrow> env \<Rightarrow> string \<Rightarrow> position \<Rightarrow> real \<Rightarrow> real \<Rightarrow> system \<Rightarrow> system" where
  \<comment> \<open>The block the source repeats at every sale: the credit, in live mode only, and the
      performance update with the sell record.\<close>
  "record_sell eid ev sy pos currentPrice pl st =
     (let b = the_bot eid st;
          st1 = (if tm_mode ev = live then credit sy (currentPrice * amount pos) (amount pos) st else st)
      in updateBotPerformance (bot_id b)
           (sell_merge (performance b)
              \<lparr> time = date_now ev, trade_type = sell, trade_price = currentPrice,
                trade_amount = amount pos, pnl = pl, trade_strategy = strategy b \<rparr>)
           (date_now ev) st1)"

definition record_buy :: "nat \<Rightarrow> env \<Rightarrow> string \<Rightarrow> real \<Rightarrow> real \<Rightarrow> real \<Rightarrow> system \<Rightarrow> system" where
  \<comment> \<open>What a purchase does once \<open>mode === 'live'\<close> and \<open>cost <= availableBalance\<close> hold:
      the debit, the performance update with the buy record, and \<open>positions.set\<close>.\<close>
  "record_buy eid ev sy buyPrice tradeAmount cost st =
     (let b = the_bot eid st;
          st1 = debit sy cost tradeAmount st;
          st2 = updateBotPerformance (bot_id b)
                  (buy_merge (performance b)
                     \<lparr> time = date_now ev, trade_type = buy, trade_price = buyPrice,
                       trade_amount = tradeAmount, pnl = 0, trade_strategy = strategy b \<rparr>)
                  (date_now ev) st1
      in upd_exec eid (\<lambda>e. e\<lparr> positions :=
            map_set sy \<lparr> entryPrice = buyPrice, amount = tradeAmount, pos_timestamp = date_now ev \<rparr>
              (positions e) \<rparr>) st2)"

subsection \<open>Stopping\<close>

definition cleanup_step :: "nat \<Rightarrow> env \<Rightarrow> string \<times> position \<Rightarrow> system \<Rightarrow> system" where
  "cleanup_step eid ev entry st =
     (case entry of (sy, pos) \<Rightarrow>
        (case ws_price ev of
           None \<Rightarrow> st
         | Some currentPrice \<Rightarrow>
             if currentPrice = 0 then st
             else record_sell eid ev sy pos currentPrice ((currentPrice - entryPrice pos) * amount pos) st))"

definition run_cleanup :: "nat \<Rightarrow> env \<Rightarrow> system \<Rightarrow> system" where
  \<comment> \<open>The function \<open>startStrategyExecutor\<close> returns: clear the timer, sell every
      position at \<open>ws.marketData.price\<close>, empty the map.\<close>
  "run_cleanup eid ev st =
     (let st1 = upd_exec eid (\<lambda>e. e\<lparr> interval_active := False \<rparr>) st;
          st2 = fold (cleanup_step eid ev) (positions (executors st1 eid)) st1
      in upd_exec eid (\<lambda>e. e\<lparr> positions := [] \<rparr>) st2)"

definition stopBot :: "string \<Rightarrow> env \<Rightarrow> system \<Rightarrow> system" where
  \<comment> \<open>\<open>ws.sendMessage\<close> catches its own errors and changes nothing that is modelled
      here; nothing in the \<open>try\<close> block throws, so the \<open>catch\<close> is not taken.\<close>
  "stopBot i ev st =
     (case getBotById i st of
        None \<Rightarrow> st
      | Some a \<Rightarrow>
          if status (heap st a) \<noteq> running then st
          else (let st1 = (case cleanup (heap st a) of
                             Some eid \<Rightarrow> run_cleanup eid ev st
                           | None \<Rightarrow> st);
                    st2 = set_bots i (\<lambda>b. b\<lparr> status := stopped \<rparr>) st1
                in handleError Bot_stopped low st2))"

subsection \<open>One tick\<close>

datatype outcome = Returned | Completed | Thrown thrown

definition snapshot :: "env \<Rightarrow> MarketSnapshot" where
  "snapshot ev =
     \<lparr> price = ws_price ev,
       klines = Some (case ws_klines ev of None \<Rightarrow> [] | Some ks \<Rightarrow> ks),
       volume = ws_volume ev,
       timestamp = date_now ev \<rparr>"

definition multi_sell_step :: "nat \<Rightarrow> env \<Rightarrow> recommendation \<Rightarrow> system \<Rightarrow> system" where
  "multi_sell_step eid ev sellRec st =
     (case map_of (positions (executors st eid)) (rec_symbol sellRec) of
        None \<Rightarrow> st
      | Some pos \<Rightarrow>
          (let currentPrice = rec_price sellRec;
               pl = (currentPrice - entryPrice pos) * amount pos;
               st1 = record_sell eid ev (rec_symbol sellRec) pos currentPrice pl st
           in upd_exec eid (\<lambda>e. e\<lparr> positions := map_delete (rec_symbol sellRec) (positions e),
                                    strategy_obj := on_MultiCoin (updateActiveSymbols (rec_symbol sellRec) False)
                                                      (strategy_obj e) \<rparr>) st1))"

definition multi_buy_step :: "nat \<Rightarrow> env \<Rightarrow> recommendation \<Rightarrow> system \<Rightarrow> system" where
  "multi_buy_step eid ev buyRec st =
     (let availableBalance = getBalance ''USDT'' (ledger st);
          tradeAmount = calculateTradeAmount (maxPositionSize (config (the_bot eid st)))
                          (rec_price buyRec) availableBalance
      in if tradeAmount \<ge> 1 then
           (if tm_mode ev = live then
              (let cost = rec_price buyRec * tradeAmount
               in if cost \<le> availableBalance then
                    upd_exec eid (\<lambda>e. e\<lparr> strategy_obj :=
                        on_MultiCoin (updateActiveSymbols (rec_symbol buyRec) True) (strategy_obj e) \<rparr>)
                      (record_buy eid ev (rec_symbol buyRec) (rec_price buyRec) tradeAmount cost st)
                  else st)
            else st)
         else st)"

definition slots_full :: "executor \<Rightarrow> bool" where
  \<comment> \<open>\<open>positions.size >= strategy.maxPositions\<close>\<close>
  "slots_full e =
     (case strategy_obj e of
        MultiCoin mc \<Rightarrow> int (length (positions e)) \<ge> maxPositions mc
      | _ \<Rightarrow> False)"

fun multi_buy_loop :: "nat \<Rightarrow> env \<Rightarrow> recommendation list \<Rightarrow> system \<Rightarrow> system" where
  "multi_buy_loop eid ev [] st = st"
| "multi_buy_loop eid ev (buyRec # rest) st =
     (if slots_full (executors st eid) then st
      else multi_buy_loop eid ev rest (multi_buy_step eid ev buyRec st))"

definition multi_branch :: "nat \<Rightarrow> env \<Rightarrow> recommendation list \<Rightarrow> recommendation list \<Rightarrow> system \<Rightarrow> system" where
  "multi_branch eid ev buys sells st =
     upd_exec eid (\<lambda>e. e\<lparr> lastTradeTime := date_now ev \<rparr>)
       (multi_buy_loop eid ev buys (fold (multi_sell_step eid ev) sells st))"

definition trade_on_signal :: "nat \<Rightarrow> env \<Rightarrow> real \<Rightarrow> signal option \<Rightarrow> system \<Rightarrow> outcome \<times> system" where
  "trade_on_signal eid ev currentPrice sig st =
     (let e = executors st eid; b = the_bot eid st in
      if sig \<noteq> None \<and> date_now ev - lastTradeTime e > 60000 then
        (let availableBalance = getBalance ''USDT'' (ledger st);
             tradeAmount = calculateTradeAmount (maxPositionSize (config b)) currentPrice availableBalance
         in if sig = Some (Str buy) \<and> positions e = [] \<and> tradeAmount \<ge> 1 then
              (if tm_mode ev = live then
                 (let cost = currentPrice * tradeAmount
                  in if cost \<le> availableBalance
                     then (Completed, record_buy eid ev (symbol (config b)) currentPrice tradeAmount cost st)
                     else (Completed, st))
               else (Completed, st))
            else if sig = Some (Str sell) \<and> positions e \<noteq> [] then
              (case map_of (positions e) (symbol (config b)) of
                 None \<Rightarrow> (Thrown TypeError, st)
               | Some pos \<Rightarrow>
                   (let pl = (currentPrice - entryPrice pos) * amount pos;
                        st1 = record_sell eid ev (symbol (config b)) pos currentPrice pl st
                    in (Completed,
                        upd_exec eid (\<lambda>e. e\<lparr> positions := map_delete (symbol (config b)) (positions e) \<rparr>) st1)))
            else (Completed, st))
      else (Completed, st))"

definition stop_loss_check :: "nat \<Rightarrow> env \<Rightarrow> real \<Rightarrow> system \<Rightarrow> outcome \<times> system" where
  "stop_loss_check eid ev currentPrice st =
     (let e = executors st eid; b = the_bot eid st in
      if positions e \<noteq> [] then
        (case map_of (positions e) (symbol (config b)) of
           None \<Rightarrow> (Thrown TypeError, st)
         | Some pos \<Rightarrow>
             (let currentPnl = (currentPrice - entryPrice pos) * amount pos;
                  pnlPercentage = currentPnl / (entryPrice pos * amount pos) * 100
              in if pnlPercentage \<le> - stopLoss (config b) \<or> pnlPercentage \<ge> takeProfit (config b) then
                   (let st1 = record_sell eid ev (symbol (config b)) pos currentPrice currentPnl st
                    in (Completed,
                        upd_exec eid (\<lambda>e. e\<lparr> positions := map_delete (symbol (config b)) (positions e),
                                                 lastTradeTime := date_now ev \<rparr>) st1))
                 else (Completed, st)))
      else (Completed, st))"

definition single_branch :: "nat \<Rightarrow> env \<Rightarrow> system \<Rightarrow> outcome \<times> system" where
  "single_branch eid ev st =
     (case ws_price ev of
        None \<Rightarrow> (Thrown NoCurrentPrice, st)
      | Some currentPrice \<Rightarrow>
          if currentPrice = 0 then (Thrown NoCurrentPrice, st)
          else (case analyze (strategy_obj (executors st eid)) (draws2 ev) (Some (snapshot ev)) of
                  (r, strat') \<Rightarrow>
                    (let st1 = upd_exec eid (\<lambda>e. e\<lparr> strategy_obj := strat' \<rparr>) st
                     in case r of
                          Inl x \<Rightarrow> (Thrown x, st1)
                        | Inr sig \<Rightarrow>
                            (case trade_on_signal eid ev currentPrice sig st1 of
                               (Thrown x, st2) \<Rightarrow> (Thrown x, st2)
                             | (oc, st2) \<Rightarrow> stop_loss_check eid ev currentPrice st2))))"

definition try_body :: "nat \<Rightarrow> env \<Rightarrow> system \<Rightarrow> outcome \<times> system" where
  "try_body eid ev st =
     (if \<not> ws_isConnected ev \<or> status (the_bot eid st) \<noteq> running then (Returned, st)
      else (case analyze (strategy_obj (executors st eid)) (draws1 ev) (Some (snapshot ev)) of
              (r, strat') \<Rightarrow>
                (let st1 = upd_exec eid (\<lambda>e. e\<lparr> strategy_obj := strat' \<rparr>) st
                 in case r of
                      Inl x \<Rightarrow> (Thrown x, st1)
                    | Inr None \<Rightarrow> (Returned, st1)
                    | Inr (Some sig) \<Rightarrow>
                        (case sig of
                           Obj buys sells \<Rightarrow>
                             if strategy (the_bot eid st1) = multi_coin
                             then (Completed, multi_branch eid ev buys sells st1)
                             else single_branch eid ev st1
                         | Str sd \<Rightarrow> single_branch eid ev st1))))"

definition catch_handler :: "nat \<Rightarrow> env \<Rightarrow> system \<Rightarrow> system" where
  "catch_handler eid ev st =
     (let st1 = upd_exec eid (\<lambda>e. e\<lparr> consecutiveErrors := consecutiveErrors e + 1,
                                       lastError := date_now ev \<rparr>) st
      in if consecutiveErrors (executors st1 eid) \<ge> 5 then
           (let st2 = upd_exec eid (\<lambda>e. e\<lparr> interval_active := False \<rparr>) st1;
                st3 = stopBot (bot_id (the_bot eid st2)) ev st2
            in handleError Stopped_after_consecutive_errors high st3)
         else handleError Strategy_execution_error medium st1)"

definition tick :: "nat \<Rightarrow> env \<Rightarrow> system \<Rightarrow> system" where
  \<comment> \<open>The callback of \<open>setInterval\<close>.\<close>
  "tick eid ev st =
     (case try_body eid ev st of
        (Returned, st1) \<Rightarrow> st1
      | (Completed, st1) \<Rightarrow> upd_exec eid (\<lambda>e. e\<lparr> consecutiveErrors := 0, lastError := 0 \<rparr>) st1
      | (Thrown x, st1) \<Rightarrow> catch_handler eid ev st1)"

definition fire :: "nat \<Rightarrow> env \<Rightarrow> system \<Rightarrow> system" where
  \<comment> \<open>The timer of executor \<open>eid\<close> comes due: the callback runs while the timer has not
      been cleared.\<close>
  "fire eid ev st = (if interval_active (executors st eid) then tick eid ev st else st)"

subsection \<open>Starting\<close>

record start_env =
  confirmed :: bool          \<comment> \<open>the answer to \<open>window.confirm\<close> in live mode\<close>
  connected :: bool          \<comment> \<open>\<open>ws.isConnected\<close> on entry\<close>
  connected_later :: bool    \<comment> \<open>\<open>ws.isConnected\<close> after \<open>connect\<close> and the five waits\<close>
  waits :: nat               \<comment> \<open>how many times the price loop waited, at most 10\<close>
  start_price :: "real option"  \<comment> \<open>\<open>ws.marketData.price\<close> after the price loop\<close>
  risk_allowed :: bool       \<comment> \<open>\<open>checkOrderRisk(...).allowed\<close>\<close>
  start_now :: real

definition startStrategyExecutor :: "nat \<Rightarrow> strategy_object \<Rightarrow> real \<Rightarrow> system \<Rightarrow> nat \<times> system" where
  \<comment> \<open>Returns the cleanup function, that is the number of the new executor.\<close>
  "startStrategyExecutor a strat t st =
     (next_executor st,
      st\<lparr> executors := (executors st)(next_executor st :=
             \<lparr> bot = a, strategy_obj = strat, positions = [], lastTradeTime = t, lastError = 0,
               consecutiveErrors = 0, interval_active = True \<rparr>),
          next_executor := next_executor st + 1 \<rparr>)"

definition start_failed :: "string \<Rightarrow> system \<Rightarrow> system" where
  \<comment> \<open>The \<open>catch\<close> of \<open>startBot\<close>.\<close>
  "start_failed i st =
     set_bots i (\<lambda>b. b\<lparr> status := error \<rparr>) (handleError Bot_start_failed high st)"

definition startBot :: "string \<Rightarrow> start_env \<Rightarrow> system \<Rightarrow> system" where
  "startBot i se st =
     (case getBotById i st of
        None \<Rightarrow> handleError Bot_not_found high st
      | Some a \<Rightarrow>
          if mode (ledger st) = live \<and> \<not> confirmed se then st
          else (let st1 = (if \<not> connected se then handleError Connecting_to_market_server low st else st)
                in if \<not> connected se \<and> \<not> connected_later se then start_failed i st1
                   else (let st2 = handleError Fetching_market_data low st1;
                             st3 = ((\<lambda>s. handleError Waiting_for_market_data low s) ^^ waits se) st2
                         in if start_price se = None \<or> start_price se = Some 0 then start_failed i st3
                            else (let st4 = handleError Assessing_risk low st3
                                  in if \<not> risk_allowed se then start_failed i st4
                                     else (let st5 = handleError Initialising_strategy low st4;
                                               b = heap st5 a;
                                               strat = createStrategy (strategy b) (parameters (config b));
                                               st6 = set_bots i (\<lambda>b. b\<lparr> status := running,
                                                        performance := (performance b)\<lparr> startTime := Some (start_now se) \<rparr> \<rparr>) st5;
                                               st7 = handleError Starting_executor low st6
                                           in case startStrategyExecutor a strat (start_now se) st7 of
                                                (cl, st8) \<Rightarrow>
                                                  handleError Bot_started low
                                                    (st8\<lparr> heap := (heap st8)(a := (heap st8 a)\<lparr> cleanup := Some cl \<rparr>) \<rparr>))))))"

section \<open>Notions used in the statements and proofs\<close>

definition is_MultiCoin :: "strategy_object \<Rightarrow> bool" where
  "is_MultiCoin strat = (case strat of MultiCoin mc \<Rightarrow> True | _ \<Rightarrow> False)"

definition snapshot_invalid :: "MarketSnapshot option \<Rightarrow> bool" where
  \<comment> \<open>The snapshot is missing, its price is missing or 0, or its klines are not an array.\<close>
  "snapshot_invalid marketData =
     (case marketData of None \<Rightarrow> True
      | Some d \<Rightarrow> price d = None \<or> price d = Some 0 \<or> klines d = None)"

definition registry :: "system \<Rightarrow> TradingBot list" where
  \<comment> \<open>The bot objects of the registry, in the order of \<open>state.bots\<close>.\<close>
  "registry st = map (heap st) (bots st)"

definition registry_wf :: "system \<Rightarrow> bool" where
  \<comment> \<open>Every reference in the registry is to an allocated object.\<close>
  "registry_wf st = (\<forall>a \<in> set (bots st). a < next_addr st)"

definition stop_acts :: "string \<Rightarrow> TradingBot list \<Rightarrow> bool" where
  \<comment> \<open>\<open>stopBot(i)\<close> gets past its guard: the first bot with id \<open>i\<close> is running.\<close>
  "stop_acts i bs = (case find (\<lambda>b. bot_id b = i) bs of None \<Rightarrow> False | Some b \<Rightarrow> status b = running)"

definition stop_statuses :: "string \<Rightarrow> TradingBot list \<Rightarrow> BotStatus list" where
  \<comment> \<open>The statuses of the registry after \<open>stopBot(i)\<close>.\<close>
  "stop_statuses i bs =
     (case find (\<lambda>b. bot_id b = i) bs of
        None \<Rightarrow> map status bs
      | Some b \<Rightarrow>
          if status b = running then map (\<lambda>b. if bot_id b = i then stopped else status b) bs
          else map status bs)"

definition tick_throws :: "nat \<Rightarrow> env \<Rightarrow> system \<Rightarrow> bool" where
  \<comment> \<open>The body of the callback throws.\<close>
  "tick_throws eid ev st = (case fst (try_body eid ev st) of Thrown x \<Rightarrow> True | _ \<Rightarrow> False)"

fun run :: "nat \<Rightarrow> env list \<Rightarrow> system \<Rightarrow> system" where
  "run eid [] st = st"
| "run eid (ev # evs) st = run eid evs (fire eid ev st)"

fun all_throw :: "nat \<Rightarrow> env list \<Rightarrow> system \<Rightarrow> bool" where
  "all_throw eid [] st = True"
| "all_throw eid (ev # evs) st = (tick_throws eid ev st \<and> all_throw eid evs (fire eid ev st))"

definition bot_ok :: "trade set \<Rightarrow> TradingBot \<Rightarrow> bool" where
  \<comment> \<open>Every buy record in the bot's trade list is in \<open>S\<close>.\<close>
  "bot_ok S b = (\<forall>t \<in> set (trades (performance b)). trade_type t = buy \<longrightarrow> t \<in> S)"

definition heap_ok :: "trade set \<Rightarrow> system \<Rightarrow> bool" where
  "heap_ok S st = (\<forall>a. bot_ok S (heap st a))"

definition demo_inv :: "TradingModeStore \<Rightarrow> (nat \<Rightarrow> (string \<times> position) set) \<Rightarrow> trade set \<Rightarrow> system \<Rightarrow> bool" where
  \<comment> \<open>What a demo-mode tick keeps: the ledger, an upper bound on every position map, and
      the buy records.\<close>
  "demo_inv L P S st =
     (ledger st = L \<and> (\<forall>e. set (positions (executors st e)) \<subseteq> P e) \<and> heap_ok S st)"

definition steady :: "system \<Rightarrow> system \<Rightarrow> bool" where
  \<comment> \<open>What the body of a tick keeps: the reports, the error counters, the timers, the
      captured references, and the ids and statuses of the registry.\<close>
  "steady st0 st =
     (reports st = reports st0
      \<and> (\<forall>e. consecutiveErrors (executors st e) = consecutiveErrors (executors st0 e)
             \<and> interval_active (executors st e) = interval_active (executors st0 e)
             \<and> bot (executors st e) = bot (executors st0 e))
      \<and> (registry_wf st0 \<longrightarrow>
            registry_wf st
            \<and> map status (registry st) = map status (registry st0)
            \<and> map bot_id (registry st) = map bot_id (registry st0)
            \<and> next_addr st0 \<le> next_addr st
            \<and> (\<forall>a < next_addr st0. heap st a = heap st0 a)))"

section \<open>Example states\<close>

text \<open>
  A grid bot on BTC/USDT in live mode with 1000 USDT, created and then started twice:
  the second \<open>startBot\<close> finds the bot already running, and its executor is number 1.
\<close>

definition grid_parameters :: parameters where
  "grid_parameters =
     \<lparr> p_fastPeriod = 0, p_slowPeriod = 0, p_period = 0, p_overbought = 0, p_oversold = 0,
       p_upperPrice = 100, p_lowerPrice = 0, p_gridLines = 10,
       p_confidenceThreshold = 0, p_maxPositions = 0, p_updateInterval = 0 \<rparr>"

definition grid_config :: config where
  "grid_config =
     \<lparr> symbol = ''BTC/USDT'', maxPositionSize = 1000, stopLoss = 5, takeProfit = 10,
       parameters = grid_parameters \<rparr>"

definition grid_bot :: botData where
  "grid_bot = \<lparr> new_name = ''grid'', new_strategy = grid, new_config = grid_config \<rparr>"

definition blank_bot :: TradingBot where
  "blank_bot =
     \<lparr> bot_id = [], bot_name = [], strategy = grid, status = stopped, config = grid_config,
       performance = \<lparr> startTime = None, totalTrades = 0, winRate = 0, profitLoss = 0,
                       lastUpdate = 0, trades = [] \<rparr>,
       cleanup = None \<rparr>"

definition blank_executor :: executor where
  "blank_executor =
     \<lparr> bot = 0, strategy_obj = DeepLearning, positions = [], lastTradeTime = 0, lastError = 0,
       consecutiveErrors = 0, interval_active = False \<rparr>"

definition live_ledger :: TradingModeStore where
  "live_ledger = \<lparr> mode = live, balance = (\<lambda>m. case m of demo \<Rightarrow> Map.empty | live \<Rightarrow> [''USDT'' \<mapsto> 1000]) \<rparr>"

definition empty_system :: system where
  "empty_system =
     \<lparr> heap = (\<lambda>a. blank_bot), next_addr = 0, bots = [], executors = (\<lambda>e. blank_executor),
       next_executor = 0, ledger = live_ledger, reports = [] \<rparr>"

definition go :: start_env where
  "go = \<lparr> confirmed = True, connected = True, connected_later = True, waits = 0,
          start_price = Some 5, risk_allowed = True, start_now = 0 \<rparr>"

definition market :: "TradingMode \<Rightarrow> real \<Rightarrow> real \<Rightarrow> env" where
  "market m p t =
     \<lparr> ws_isConnected = True, ws_price = Some p, ws_klines = Some [], ws_volume = 0,
       tm_mode = m, date_now = t, draws1 = some_draws, draws2 = some_draws \<rparr>"

definition started_twice :: system where
  "started_twice = startBot ''1'' go (startBot ''1'' go (createBot grid_bot ''1'' 0 empty_system))"

definition bought :: system where
  "bought = fire (Suc 0) (market live 5 61000) started_twice"

definition no_price :: env where
  "no_price = market live 0 1000"

text \<open>
  The same run (create, start twice) over an arbitrary ledger; \<open>demo_started\<close> is that
  run with the store as shipped (demo mode, 100000 demo USDT). In \<open>demo_switched\<close> the
  store is first switched to live mode, the bot is started, and the store is switched
  back to demo mode by \<open>setMode('demo')\<close>.
\<close>

definition twice_started :: "TradingModeStore \<Rightarrow> system" where
  "twice_started L =
     startBot ''1'' go (startBot ''1'' go (createBot grid_bot ''1'' 0 (empty_system\<lparr> ledger := L \<rparr>)))"

definition demo_started :: system where
  "demo_started = twice_started initial_store"

definition demo_switched :: system where
  "demo_switched =
     (let st = twice_started (setMode live True True initial_store)
      in st\<lparr> ledger := setMode demo False False (ledger st) \<rparr>)"

section \<open>The ledger floor\<close>

lemma or_zero_Some [simp]: "or_zero (Some r) = r"
  by (simp add: or_zero_def)

lemma or_zero_None [simp]: "or_zero None = 0"
  by (simp add: or_zero_def)

lemma mode_updateBalance [simp]: "mode (updateBalance c d s) = mode s"
  by (simp add: updateBalance_def Let_def)

lemma balance_updateBalance:
  "balance (updateBalance c d s) m c' =
     (if m = mode s \<and> c' = c then Some (max 0 (getBalance c s + d)) else balance s m c')"
  by (simp add: updateBalance_def getBalance_def Let_def)

lemma balances_nonneg_updateBalance:
  "balances_nonneg s \<Longrightarrow> balances_nonneg (updateBalance c d s)"
  unfolding balances_nonneg_def
  by (auto simp: balance_updateBalance split: if_splits)

lemma balances_nonneg_calls:
  "balances_nonneg s \<Longrightarrow> balances_nonneg (updateBalance_calls calls s)"
  by (induction calls s rule: updateBalance_calls.induct)
     (simp_all add: balances_nonneg_updateBalance)

lemma balances_nonneg_initial: "balances_nonneg initial_store"
  by (auto simp: balances_nonneg_def initial_store_def DEFAULT_DEMO_BALANCE_def
           split: TradingMode.splits if_splits)

text \<open>
  C3. \<open>updateBalance(currency, delta)\<close> stores \<open>max(0, old + delta)\<close> for that currency
  in the current trading mode, a missing entry counting as 0, and leaves every other
  entry alone; so after any finite sequence of \<open>updateBalance\<close> calls from the initial
  state every stored balance is at least 0.
\<close>

theorem updateBalance_floor:
  "balance (updateBalance currency delta state) (mode state) currency
     = Some (max 0 ((case balance state (mode state) currency of None \<Rightarrow> 0 | Some old \<Rightarrow> old) + delta))
   \<and> (\<forall>m c v. balance (updateBalance_calls calls initial_store) m c = Some v \<longrightarrow> 0 \<le> v)"
proof
  show "balance (updateBalance currency delta state) (mode state) currency
     = Some (max 0 ((case balance state (mode state) currency of None \<Rightarrow> 0 | Some old \<Rightarrow> old) + delta))"
    by (simp add: balance_updateBalance getBalance_def split: option.splits)
next
  have "balances_nonneg (updateBalance_calls calls initial_store)"
    by (rule balances_nonneg_calls [OF balances_nonneg_initial])
  then show "\<forall>m c v. balance (updateBalance_calls calls initial_store) m c = Some v \<longrightarrow> 0 \<le> v"
    by (simp add: balances_nonneg_def)
qed

theorem updateBalance_floor_witness:
  "balance (updateBalance_calls [(''USDT'', - 250000), (''BTC'', 3)] initial_store) demo ''USDT'' = Some 0
   \<and> balance (updateBalance_calls [(''USDT'', - 250000), (''BTC'', 3)] initial_store) demo ''BTC'' = Some 3
   \<and> (0::real) \<le> 3"
  using updateBalance_floor [of "''USDT''" 0 initial_store "[(''USDT'', - 250000), (''BTC'', 3)]"]
  by (simp add: balance_updateBalance getBalance_def initial_store_def DEFAULT_DEMO_BALANCE_def)

lemma close_kline_of_close [simp]: "map close (map kline_of_close cs) = cs"
  by (induction cs) (simp_all add: kline_of_close_def)

lemma validateData_snapshot_of [simp]:
  "p \<noteq> 0 \<Longrightarrow> validateData (Some (snapshot_of p cs)) = Inr (p, map kline_of_close cs)"
  by (simp add: validateData_def snapshot_of_def)




section \<open>Trade sizing and win rate\<close>







section \<open>The strategies' rules\<close>












lemma js_trunc_half_odd:
  "real_of_int (js_trunc ((2 * real_of_int j + 1) / 2)) \<noteq> (2 * real_of_int j + 1) / 2"
proof
  assume "real_of_int (js_trunc ((2 * real_of_int j + 1) / 2)) = (2 * real_of_int j + 1) / 2"
  then have "2 * real_of_int (js_trunc ((2 * real_of_int j + 1) / 2)) = real_of_int (2 * j + 1)"
    by simp
  then have "2 * js_trunc ((2 * real_of_int j + 1) / 2) = 2 * j + 1"
    by linarith
  then show False by presburger
qed

lemma js_rem_2_even: "js_rem (Fin (of_int k)) 2 = Fin 0 \<longleftrightarrow> even k"
proof (cases "even k")
  case True
  then obtain j where "k = 2 * j" by (auto elim: evenE)
  then show ?thesis by (simp add: js_rem_def js_trunc_def)
next
  case False
  then obtain j where k: "k = 2 * j + 1" by (auto elim: oddE)
  show ?thesis using False js_trunc_half_odd [of j]
    by (simp add: js_rem_def k)
qed

lemma Grid_analyze_valid:
  "validateData md = Inr (p, ks) \<Longrightarrow>
   Grid_analyze g md =
     Inr (Some (Str (if js_rem (js_floor (js_div_ext (p - lowerPrice g) (gridSize g))) 2 = Fin 0
                     then buy else sell)))"
  by (simp add: Grid_analyze_def Let_def)

lemma Grid_analyze_even:
  assumes "validateData md = Inr (p, ks)" and "lines \<noteq> 0" and "upper \<noteq> lower"
  shows "Grid_analyze (GridStrategy_new upper lower lines) md =
           Inr (Some (Str (if even \<lfloor>(p - lower) / ((upper - lower) / lines)\<rfloor> then buy else sell)))"
  using assms(2,3)
  by (simp add: Grid_analyze_valid [OF assms(1)] GridStrategy_new_def js_div_def js_div_ext_def
                js_floor_def Math_floor_def js_rem_2_even)



lemma validateData_invalid:
  "validateData md = Inl InvalidMarketData \<longleftrightarrow> snapshot_invalid md"
  by (auto simp: validateData_def snapshot_invalid_def split: option.splits)

lemma validateData_cases:
  "validateData md = Inl InvalidMarketData \<or> (\<exists>p ks. validateData md = Inr (p, ks))"
  by (auto simp: validateData_def split: option.splits)

lemma MACross_analyze_raises:
  "MACross_analyze f sl md = Inl e \<longleftrightarrow> e = InvalidMarketData \<and> snapshot_invalid md"
  using validateData_cases [of md] validateData_invalid [of md]
  by (auto simp: MACross_analyze_def Let_def split: if_splits)

lemma RSI_analyze_raises:
  "RSI_analyze n ob os md = Inl e \<longleftrightarrow> e = InvalidMarketData \<and> snapshot_invalid md"
  using validateData_cases [of md] validateData_invalid [of md]
  by (auto simp: RSI_analyze_def Let_def split: if_splits)

lemma Grid_analyze_raises:
  "Grid_analyze g md = Inl e \<longleftrightarrow> e = InvalidMarketData \<and> snapshot_invalid md"
  using validateData_cases [of md] validateData_invalid [of md]
  by (auto simp: Grid_analyze_def Let_def split: if_splits)

lemma MLTrend_analyze_raises:
  "MLTrend_analyze t pr cf md = Inl e \<longleftrightarrow> e = InvalidMarketData \<and> snapshot_invalid md"
  using validateData_cases [of md] validateData_invalid [of md]
  by (auto simp: MLTrend_analyze_def split: if_splits)

lemma DeepLearning_analyze_raises:
  "DeepLearning_analyze pr md = Inl e \<longleftrightarrow> e = InvalidMarketData \<and> snapshot_invalid md"
  using validateData_cases [of md] validateData_invalid [of md]
  by (auto simp: DeepLearning_analyze_def)

lemma analyze_raises:
  "fst (analyze strat orc md) = Inl e
     \<longleftrightarrow> \<not> is_MultiCoin strat \<and> e = InvalidMarketData \<and> snapshot_invalid md"
  by (cases strat)
     (simp_all add: analyze_def is_MultiCoin_def MACross_analyze_raises RSI_analyze_raises
        Grid_analyze_raises MLTrend_analyze_raises DeepLearning_analyze_raises split: prod.splits)

text \<open>
  C10 (amended). For the MA-Cross, RSI, Grid, ML-Trend and Deep-Learning strategies
  \<open>analyze\<close> raises the invalid-market-data error exactly when the snapshot is missing,
  its price is missing or 0, or its klines are not an array; it raises nothing else, and
  a snapshot with a non-zero price (positive or negative) and a klines array passes the
  validation. The Multi-Coin strategy does not validate the snapshot and never raises.
\<close>

theorem analyze_validation:
  "(\<not> is_MultiCoin strat \<longrightarrow>
      (fst (analyze strat orc marketData) = Inl InvalidMarketData \<longleftrightarrow> snapshot_invalid marketData)
    \<and> (isl (fst (analyze strat orc marketData)) \<longleftrightarrow> snapshot_invalid marketData))
   \<and> (is_MultiCoin strat \<longrightarrow> \<not> isl (fst (analyze strat orc marketData)))"
  using analyze_raises [of strat orc marketData]
  by (cases "fst (analyze strat orc marketData)") auto

theorem analyze_validation_witness:
  "fst (analyze (MACross 2 4) some_draws (Some (snapshot_of 0 [1, 2, 3, 4, 5]))) = Inl InvalidMarketData
   \<and> fst (analyze (MACross 2 4) some_draws (Some (snapshot_of 5 [1, 2, 3, 4, 5]))) \<noteq> Inl InvalidMarketData
   \<and> \<not> isl (fst (analyze (MultiCoin \<lparr> confidenceThreshold = 3 / 10, maxPositions = 5,
             updateInterval = 900000, lastUpdate = 0, activeSymbols = {} \<rparr>) some_draws None))"
  using analyze_validation [of "MACross 2 4" some_draws "Some (snapshot_of 0 [1, 2, 3, 4, 5])"]
        analyze_validation [of "MACross 2 4" some_draws "Some (snapshot_of 5 [1, 2, 3, 4, 5])"]
        analyze_validation [of "MultiCoin \<lparr> confidenceThreshold = 3 / 10, maxPositions = 5,
             updateInterval = 900000, lastUpdate = 0, activeSymbols = {} \<rparr>" some_draws None]
  by (simp add: is_MultiCoin_def snapshot_invalid_def snapshot_of_def)

text \<open>
  C10 as stated fails: a Grid strategy returns a signal on a snapshot whose price is
  \<open>-1\<close>, and the Multi-Coin strategy returns \<open>null\<close> when no snapshot is passed at
  all.
\<close>

theorem analyze_validation_counterexample:
  "fst (analyze (Grid (GridStrategy_new 10 0 10)) some_draws (Some (snapshot_of (- 1) [])))
     = Inr (Some (Str sell))
   \<and> (- 1 :: real) \<le> 0
   \<and> fst (analyze (MultiCoin \<lparr> confidenceThreshold = 3 / 10, maxPositions = 5,
             updateInterval = 900000, lastUpdate = 0, activeSymbols = {} \<rparr>) some_draws None)
     = Inr None"
proof -
  have "validateData (Some (snapshot_of (- 1) [])) = Inr (- 1, [])"
    by (simp add: validateData_def snapshot_of_def)
  moreover have "\<lfloor>- 1 :: real\<rfloor> = - 1"
    by (rule floor_unique) simp_all
  ultimately have "Grid_analyze (GridStrategy_new 10 0 10) (Some (snapshot_of (- 1) []))
               = Inr (Some (Str sell))"
    by (simp add: Grid_analyze_even)
  then show ?thesis
    by (simp add: analyze_def MultiCoin_analyze_def some_draws_def)
qed

section \<open>The executor: registry, frames and the circuit breaker\<close>

lemma handleError_simps [simp]:
  "heap (handleError m sv st) = heap st"
  "next_addr (handleError m sv st) = next_addr st"
  "bots (handleError m sv st) = bots st"
  "executors (handleError m sv st) = executors st"
  "next_executor (handleError m sv st) = next_executor st"
  "ledger (handleError m sv st) = ledger st"
  "reports (handleError m sv st) = reports st @ [(sv, m)]"
  by (simp_all add: handleError_def)

lemma upd_exec_simps [simp]:
  "heap (upd_exec eid f st) = heap st"
  "next_addr (upd_exec eid f st) = next_addr st"
  "bots (upd_exec eid f st) = bots st"
  "executors (upd_exec eid f st) e = (if e = eid then f (executors st eid) else executors st e)"
  "next_executor (upd_exec eid f st) = next_executor st"
  "ledger (upd_exec eid f st) = ledger st"
  "reports (upd_exec eid f st) = reports st"
  by (simp_all add: upd_exec_def)

lemma credit_simps [simp]:
  "heap (credit sy p a st) = heap st"
  "next_addr (credit sy p a st) = next_addr st"
  "bots (credit sy p a st) = bots st"
  "executors (credit sy p a st) = executors st"
  "next_executor (credit sy p a st) = next_executor st"
  "reports (credit sy p a st) = reports st"
  by (simp_all add: credit_def)

lemma debit_simps [simp]:
  "heap (debit sy p a st) = heap st"
  "next_addr (debit sy p a st) = next_addr st"
  "bots (debit sy p a st) = bots st"
  "executors (debit sy p a st) = executors st"
  "next_executor (debit sy p a st) = next_executor st"
  "reports (debit sy p a st) = reports st"
  by (simp_all add: debit_def)

lemma map_bots_other:
  "map_bots i f as st = (bs, st') \<Longrightarrow>
     executors st' = executors st \<and> next_executor st' = next_executor st
     \<and> ledger st' = ledger st \<and> reports st' = reports st \<and> bots st' = bots st"
  by (induction as arbitrary: st bs st')
     (auto simp: alloc_def split: if_splits prod.splits)

lemma set_bots_simps [simp]:
  "executors (set_bots i f st) = executors st"
  "next_executor (set_bots i f st) = next_executor st"
  "ledger (set_bots i f st) = ledger st"
  "reports (set_bots i f st) = reports st"
  by (auto simp: set_bots_def dest: map_bots_other split: prod.splits)

lemma map_bots_heap_ok:
  "map_bots i f as st = (bs, st') \<Longrightarrow> heap_ok S st \<Longrightarrow> (\<And>b. bot_ok S b \<Longrightarrow> bot_ok S (f b))
     \<Longrightarrow> heap_ok S st'"
proof (induction as arbitrary: st bs st')
  case Nil
  then show ?case by simp
next
  case (Cons a as)
  show ?case
  proof (cases "bot_id (heap st a) = i")
    case True
    obtain a' st1 where al: "alloc (f (heap st a)) st = (a', st1)" by force
    obtain as' st2 where mb: "map_bots i f as st1 = (as', st2)" by force
    have "heap_ok S st1"
      using al Cons.prems(2) Cons.prems(3) [of "heap st a"]
      by (auto simp: alloc_def heap_ok_def)
    then have "heap_ok S st2"
      using Cons.IH [OF mb] Cons.prems(3) by blast
    then show ?thesis using Cons.prems(1) True al mb by simp
  next
    case False
    obtain as' st2 where mb: "map_bots i f as st = (as', st2)" by force
    have "heap_ok S st2"
      using Cons.IH [OF mb Cons.prems(2)] Cons.prems(3) by blast
    then show ?thesis using Cons.prems(1) False mb by simp
  qed
qed

lemma set_bots_heap_ok:
  "heap_ok S st \<Longrightarrow> (\<And>b. bot_ok S b \<Longrightarrow> bot_ok S (f b)) \<Longrightarrow> heap_ok S (set_bots i f st)"
proof -
  assume h: "heap_ok S st" and f: "\<And>b. bot_ok S b \<Longrightarrow> bot_ok S (f b)"
  obtain bs st' where mb: "map_bots i f (bots st) st = (bs, st')" by force
  have "heap_ok S st'" using map_bots_heap_ok [OF mb h] f by blast
  then show ?thesis by (simp add: set_bots_def mb heap_ok_def)
qed

lemma map_bots_registry:
  "map_bots i f as st = (bs, st') \<Longrightarrow> \<forall>a \<in> set as. a < next_addr st \<Longrightarrow>
     map (heap st') bs = map (\<lambda>a. if bot_id (heap st a) = i then f (heap st a) else heap st a) as
     \<and> next_addr st \<le> next_addr st'
     \<and> (\<forall>a < next_addr st. heap st' a = heap st a)
     \<and> (\<forall>b \<in> set bs. b < next_addr st')"
proof (induction as arbitrary: st bs st')
  case Nil
  then show ?case by simp
next
  case (Cons a as)
  show ?case
  proof (cases "bot_id (heap st a) = i")
    case True
    obtain a' st1 where al: "alloc (f (heap st a)) st = (a', st1)" by force
    obtain as' st2 where mb: "map_bots i f as st1 = (as', st2)" by force
    have a': "a' = next_addr st" "next_addr st1 = next_addr st + 1"
      "heap st1 = (heap st)(next_addr st := f (heap st a))"
      using al by (auto simp: alloc_def)
    have lt: "\<forall>x \<in> set as. x < next_addr st1" using Cons.prems(2) a' by auto
    note ih = Cons.IH [OF mb lt]
    have old: "\<forall>x < next_addr st. heap st2 x = heap st x"
      using ih a' by auto
    have "heap st2 a' = f (heap st a)" using ih a' by auto
    moreover have "map (heap st2) as' = map (\<lambda>a. if bot_id (heap st a) = i then f (heap st a) else heap st a) as"
      using ih Cons.prems(2) a' by auto
    moreover have "bs = a' # as'" "st' = st2" using Cons.prems(1) True al mb by auto
    ultimately show ?thesis using True ih a' old by auto
  next
    case False
    obtain as' st2 where mb: "map_bots i f as st = (as', st2)" by force
    have lt: "\<forall>x \<in> set as. x < next_addr st" using Cons.prems(2) by auto
    note ih = Cons.IH [OF mb lt]
    have "bs = a # as'" "st' = st2" using Cons.prems(1) False mb by auto
    moreover have "heap st2 a = heap st a" "a < next_addr st2" using ih Cons.prems(2) by auto
    ultimately show ?thesis using False ih by auto
  qed
qed

lemma set_bots_registry:
  assumes "registry_wf st"
  shows "registry (set_bots i f st) = map (\<lambda>b. if bot_id b = i then f b else b) (registry st)"
    and "registry_wf (set_bots i f st)"
    and "next_addr st \<le> next_addr (set_bots i f st)"
    and "\<forall>a < next_addr st. heap (set_bots i f st) a = heap st a"
proof -
  obtain bs st' where mb: "map_bots i f (bots st) st = (bs, st')" by force
  have lt: "\<forall>a \<in> set (bots st). a < next_addr st" using assms by (simp add: registry_wf_def)
  note r = map_bots_registry [OF mb lt]
  have eq: "set_bots i f st = st'\<lparr> bots := bs \<rparr>" by (simp add: set_bots_def mb)
  show "registry (set_bots i f st) = map (\<lambda>b. if bot_id b = i then f b else b) (registry st)"
    using r by (simp add: eq registry_def comp_def)
  show "registry_wf (set_bots i f st)" using r by (simp add: eq registry_wf_def)
  show "next_addr st \<le> next_addr (set_bots i f st)" using r by (simp add: eq)
  show "\<forall>a < next_addr st. heap (set_bots i f st) a = heap st a" using r by (simp add: eq)
qed

lemma single_branch_inv:
  assumes "I st"
    and su: "\<And>s st. I st \<Longrightarrow> I (upd_exec eid (\<lambda>e. e\<lparr> strategy_obj := s \<rparr>) st)"
    and tr: "\<And>cp sig st. I st \<Longrightarrow> I (snd (trade_on_signal eid ev cp sig st))"
    and sl: "\<And>cp st. I st \<Longrightarrow> I (snd (stop_loss_check eid ev cp st))"
  shows "I (snd (single_branch eid ev st))"
proof (cases "ws_price ev")
  case None
  then show ?thesis using assms(1) by (simp add: single_branch_def)
next
  case (Some cp)
  obtain r strat' where an: "analyze (strategy_obj (executors st eid)) (draws2 ev) (Some (snapshot ev)) = (r, strat')"
    by force
  define st1 where "st1 = upd_exec eid (\<lambda>e. e\<lparr> strategy_obj := strat' \<rparr>) st"
  have i1: "I st1"
    unfolding st1_def by (rule su [OF assms(1)])
  have i2: "I (snd (trade_on_signal eid ev cp sig st1))" for sig
    by (rule tr [OF i1])
  have i3: "I (snd (stop_loss_check eid ev cp (snd (trade_on_signal eid ev cp sig st1))))" for sig
    by (rule sl [OF i2])
  show ?thesis
  proof (cases "cp = 0")
    case True
    then show ?thesis using assms(1) Some by (simp add: single_branch_def)
  next
    case False
    show ?thesis
    proof (cases r)
      case (Inl x)
      then show ?thesis using Some False an i1 by (simp add: single_branch_def st1_def)
    next
      case (Inr sig)
      obtain oc st2 where t: "trade_on_signal eid ev cp sig st1 = (oc, st2)" by force
      show ?thesis
        using Some False an Inr t i2 [of sig] i3 [of sig]
        by (cases oc) (simp_all add: single_branch_def st1_def [symmetric])
    qed
  qed
qed

lemma try_body_inv:
  assumes "I st"
    and su: "\<And>s st. I st \<Longrightarrow> I (upd_exec eid (\<lambda>e. e\<lparr> strategy_obj := s \<rparr>) st)"
    and sb: "\<And>st. I st \<Longrightarrow> I (snd (single_branch eid ev st))"
    and mb: "\<And>buys sells st. I st \<Longrightarrow> I (multi_branch eid ev buys sells st)"
  shows "I (snd (try_body eid ev st))"
proof (cases "\<not> ws_isConnected ev \<or> status (the_bot eid st) \<noteq> running")
  case True
  then show ?thesis using assms(1) by (simp add: try_body_def)
next
  case False
  obtain r strat' where an: "analyze (strategy_obj (executors st eid)) (draws1 ev) (Some (snapshot ev)) = (r, strat')"
    by force
  define st1 where "st1 = upd_exec eid (\<lambda>e. e\<lparr> strategy_obj := strat' \<rparr>) st"
  have i1: "I st1"
    unfolding st1_def by (rule su [OF assms(1)])
  show ?thesis
    using False an i1 sb [OF i1] mb [OF i1]
    by (simp add: try_body_def st1_def [symmetric] split: sum.splits option.splits signal.splits)
qed

lemma demo_inv_handleError [simp]:
  "demo_inv L P S (handleError m sv st) = demo_inv L P S st"
  by (simp add: demo_inv_def heap_ok_def)

lemma demo_inv_upd_exec:
  "demo_inv L P S st \<Longrightarrow> set (positions (f (executors st eid))) \<subseteq> set (positions (executors st eid))
     \<Longrightarrow> demo_inv L P S (upd_exec eid f st)"
  by (auto simp: demo_inv_def heap_ok_def)

lemma demo_inv_set_bots:
  "demo_inv L P S st \<Longrightarrow> (\<And>b. bot_ok S b \<Longrightarrow> bot_ok S (f b)) \<Longrightarrow> demo_inv L P S (set_bots i f st)"
  by (simp add: demo_inv_def set_bots_heap_ok)

lemma bot_ok_sell_merge:
  "bot_ok S b0 \<Longrightarrow> trade_type t = sell \<Longrightarrow>
     bot_ok S (b\<lparr> performance := (sell_merge (performance b0) t (performance b))\<lparr> lastUpdate := u \<rparr> \<rparr>)"
  by (auto simp: bot_ok_def sell_merge_def dest: in_set_takeD)

lemma demo_inv_record_sell:
  assumes "tm_mode ev = demo" and "demo_inv L P S st"
  shows "demo_inv L P S (record_sell eid ev sy pos cp pl st)"
proof -
  have "bot_ok S (the_bot eid st)"
    using assms(2) by (simp add: demo_inv_def heap_ok_def the_bot_def)
  then show ?thesis
    using assms
    by (simp add: record_sell_def Let_def updateBotPerformance_def demo_inv_set_bots bot_ok_sell_merge)
qed

lemma set_map_delete: "set (map_delete k m) \<subseteq> set m"
  by (auto simp: map_delete_def)

lemma updateBotPerformance_simps [simp]:
  "executors (updateBotPerformance i mg t st) = executors st"
  "next_executor (updateBotPerformance i mg t st) = next_executor st"
  "ledger (updateBotPerformance i mg t st) = ledger st"
  "reports (updateBotPerformance i mg t st) = reports st"
  by (simp_all add: updateBotPerformance_def)

lemma record_sell_simps [simp]:
  "executors (record_sell eid ev sy pos cp pl st) = executors st"
  "next_executor (record_sell eid ev sy pos cp pl st) = next_executor st"
  "reports (record_sell eid ev sy pos cp pl st) = reports st"
  by (simp_all add: record_sell_def Let_def)

lemma demo_inv_multi_sell_step:
  assumes "tm_mode ev = demo" and "demo_inv L P S st"
  shows "demo_inv L P S (multi_sell_step eid ev r st)"
proof (cases "map_of (positions (executors st eid)) (rec_symbol r)")
  case None
  then show ?thesis using assms(2) by (simp add: multi_sell_step_def)
next
  case (Some pos)
  show ?thesis
    unfolding multi_sell_step_def Some option.case Let_def
    by (rule demo_inv_upd_exec [OF demo_inv_record_sell [OF assms]]) (simp add: set_map_delete)
qed

lemma demo_inv_multi_sells:
  assumes "tm_mode ev = demo"
  shows "demo_inv L P S st \<Longrightarrow> demo_inv L P S (fold (multi_sell_step eid ev) rs st)"
  by (induction rs arbitrary: st) (simp_all add: demo_inv_multi_sell_step [OF assms])

lemma multi_buy_step_demo: "tm_mode ev = demo \<Longrightarrow> multi_buy_step eid ev r st = st"
  by (simp add: multi_buy_step_def Let_def)

lemma multi_buy_loop_demo: "tm_mode ev = demo \<Longrightarrow> multi_buy_loop eid ev rs st = st"
  by (induction rs arbitrary: st) (simp_all add: multi_buy_step_demo)

lemma demo_inv_multi_branch:
  assumes "tm_mode ev = demo" and "demo_inv L P S st"
  shows "demo_inv L P S (multi_branch eid ev buys sells st)"
  unfolding multi_branch_def multi_buy_loop_demo [OF assms(1)]
  by (rule demo_inv_upd_exec [OF demo_inv_multi_sells [OF assms]]) simp

lemma demo_inv_trade_on_signal:
  assumes "tm_mode ev = demo" and "demo_inv L P S st"
  shows "demo_inv L P S (snd (trade_on_signal eid ev cp sig st))"
proof -
  have sell: "demo_inv L P S
     (upd_exec eid (\<lambda>e. e\<lparr> positions := map_delete k (positions e) \<rparr>) (record_sell eid ev sy pos cp pl st))"
    for k sy pos pl
    by (rule demo_inv_upd_exec [OF demo_inv_record_sell [OF assms]]) (simp add: set_map_delete)
  show ?thesis
    using assms sell
    by (simp add: trade_on_signal_def Let_def split: option.splits)
qed

lemma demo_inv_stop_loss_check:
  assumes "tm_mode ev = demo" and "demo_inv L P S st"
  shows "demo_inv L P S (snd (stop_loss_check eid ev cp st))"
proof -
  have sell: "demo_inv L P S
     (upd_exec eid (\<lambda>e. e\<lparr> positions := map_delete k (positions e), lastTradeTime := u \<rparr>)
        (record_sell eid ev sy pos cp pl st))"
    for k sy pos pl u
    by (rule demo_inv_upd_exec [OF demo_inv_record_sell [OF assms]]) (simp add: set_map_delete)
  show ?thesis
    using assms sell
    by (simp add: stop_loss_check_def Let_def split: option.splits)
qed

lemma demo_inv_strategy_update:
  "demo_inv L P S st \<Longrightarrow> demo_inv L P S (upd_exec eid (\<lambda>e. e\<lparr> strategy_obj := s \<rparr>) st)"
  by (rule demo_inv_upd_exec) simp_all

lemma demo_inv_single_branch:
  assumes "tm_mode ev = demo" and "demo_inv L P S st"
  shows "demo_inv L P S (snd (single_branch eid ev st))"
  by (rule single_branch_inv [where I = "demo_inv L P S", OF assms(2)])
     (simp_all add: demo_inv_strategy_update demo_inv_trade_on_signal [OF assms(1)]
        demo_inv_stop_loss_check [OF assms(1)])

lemma demo_inv_try_body:
  assumes "tm_mode ev = demo" and "demo_inv L P S st"
  shows "demo_inv L P S (snd (try_body eid ev st))"
  by (rule try_body_inv [where I = "demo_inv L P S", OF assms(2)])
     (simp_all add: demo_inv_strategy_update demo_inv_single_branch [OF assms(1)]
        demo_inv_multi_branch [OF assms(1)])

lemma demo_inv_cleanup_step:
  assumes "tm_mode ev = demo" and "demo_inv L P S st"
  shows "demo_inv L P S (cleanup_step eid ev entry st)"
  using assms demo_inv_record_sell [OF assms]
  by (simp add: cleanup_step_def split: prod.splits option.splits)

lemma demo_inv_cleanup_fold:
  assumes "tm_mode ev = demo"
  shows "demo_inv L P S st \<Longrightarrow> demo_inv L P S (fold (cleanup_step eid ev) ps st)"
  by (induction ps arbitrary: st) (simp_all add: demo_inv_cleanup_step [OF assms])

lemma demo_inv_run_cleanup:
  assumes "tm_mode ev = demo" and "demo_inv L P S st"
  shows "demo_inv L P S (run_cleanup eid ev st)"
proof -
  have "demo_inv L P S (upd_exec eid (\<lambda>e. e\<lparr> interval_active := False \<rparr>) st)"
    by (rule demo_inv_upd_exec [OF assms(2)]) simp
  then have "demo_inv L P S (fold (cleanup_step eid ev) ps (upd_exec eid (\<lambda>e. e\<lparr> interval_active := False \<rparr>) st))" for ps
    by (rule demo_inv_cleanup_fold [OF assms(1)])
  then show ?thesis
    unfolding run_cleanup_def Let_def
    by (intro demo_inv_upd_exec) simp_all
qed

lemma bot_ok_status: "bot_ok S b \<Longrightarrow> bot_ok S (b\<lparr> status := s \<rparr>)"
  by (simp add: bot_ok_def)

lemma demo_inv_stopBot:
  assumes "tm_mode ev = demo" and "demo_inv L P S st"
  shows "demo_inv L P S (stopBot i ev st)"
  using assms demo_inv_run_cleanup [OF assms]
  by (auto simp: stopBot_def Let_def bot_ok_status intro!: demo_inv_set_bots split: option.splits)

lemma demo_inv_catch_handler:
  assumes "tm_mode ev = demo" and "demo_inv L P S st"
  shows "demo_inv L P S (catch_handler eid ev st)"
proof -
  define st1 where "st1 = upd_exec eid (\<lambda>e. e\<lparr> consecutiveErrors := consecutiveErrors e + 1,
                                       lastError := date_now ev \<rparr>) st"
  have i1: "demo_inv L P S st1"
    unfolding st1_def by (rule demo_inv_upd_exec [OF assms(2)]) simp
  have i2: "demo_inv L P S (upd_exec eid (\<lambda>e. e\<lparr> interval_active := False \<rparr>) st1)"
    by (rule demo_inv_upd_exec [OF i1]) simp
  have i3: "demo_inv L P S (stopBot i ev (upd_exec eid (\<lambda>e. e\<lparr> interval_active := False \<rparr>) st1))" for i
    by (rule demo_inv_stopBot [OF assms(1) i2])
  show ?thesis
    using i1 i3 unfolding st1_def catch_handler_def Let_def by simp
qed

lemma demo_inv_tick:
  assumes "tm_mode ev = demo" and "demo_inv L P S st"
  shows "demo_inv L P S (tick eid ev st)"
proof -
  obtain oc st1 where tb: "try_body eid ev st = (oc, st1)" by force
  have i1: "demo_inv L P S st1"
    using demo_inv_try_body [OF assms, of eid] tb by simp
  have "demo_inv L P S (upd_exec eid (\<lambda>e. e\<lparr> consecutiveErrors := 0, lastError := 0 \<rparr>) st1)"
    by (rule demo_inv_upd_exec [OF i1]) simp
  then show ?thesis
    using i1 demo_inv_catch_handler [OF assms(1) i1]
    by (cases oc) (simp_all add: tick_def tb)
qed

lemma demo_inv_fire:
  assumes "tm_mode ev = demo" and "demo_inv L P S st"
  shows "demo_inv L P S (fire eid ev st)"
  using assms demo_inv_tick [OF assms] by (simp add: fire_def)

lemma demo_inv_start:
  "demo_inv (ledger st) (\<lambda>e. set (positions (executors st e)))
     {t. \<exists>a. t \<in> set (trades (performance (heap st a)))} st"
  by (auto simp: demo_inv_def heap_ok_def bot_ok_def)

lemma steady_refl [simp]: "steady st st"
  by (simp add: steady_def)

lemma registry_upd_exec [simp]: "registry (upd_exec eid f st) = registry st"
  by (simp add: registry_def)

lemma registry_wf_upd_exec [simp]: "registry_wf (upd_exec eid f st) = registry_wf st"
  by (simp add: registry_wf_def)

lemma registry_handleError [simp]: "registry (handleError m sv st) = registry st"
  by (simp add: registry_def)

lemma registry_wf_handleError [simp]: "registry_wf (handleError m sv st) = registry_wf st"
  by (simp add: registry_wf_def)

lemma registry_credit [simp]: "registry (credit sy p a st) = registry st"
  by (simp add: registry_def)

lemma registry_wf_credit [simp]: "registry_wf (credit sy p a st) = registry_wf st"
  by (simp add: registry_wf_def)

lemma registry_debit [simp]: "registry (debit sy p a st) = registry st"
  by (simp add: registry_def)

lemma registry_wf_debit [simp]: "registry_wf (debit sy p a st) = registry_wf st"
  by (simp add: registry_wf_def)

lemma steady_upd_exec:
  assumes "steady st0 st"
    and "consecutiveErrors (f (executors st eid)) = consecutiveErrors (executors st eid)"
    and "interval_active (f (executors st eid)) = interval_active (executors st eid)"
    and "bot (f (executors st eid)) = bot (executors st eid)"
  shows "steady st0 (upd_exec eid f st)"
  using assms by (simp add: steady_def)

lemma steady_credit: "steady st0 st \<Longrightarrow> steady st0 (credit sy p a st)"
  by (simp add: steady_def)

lemma steady_debit: "steady st0 st \<Longrightarrow> steady st0 (debit sy p a st)"
  by (simp add: steady_def)

lemma steady_set_bots:
  assumes "steady st0 st" and "\<And>b. status (f b) = status b \<and> bot_id (f b) = bot_id b"
  shows "steady st0 (set_bots i f st)"
proof -
  have "registry_wf (set_bots i f st)
        \<and> map status (registry (set_bots i f st)) = map status (registry st0)
        \<and> map bot_id (registry (set_bots i f st)) = map bot_id (registry st0)
        \<and> next_addr st0 \<le> next_addr (set_bots i f st)
        \<and> (\<forall>a < next_addr st0. heap (set_bots i f st) a = heap st0 a)"
    if w0: "registry_wf st0"
  proof -
    from assms(1) w0 have w: "registry_wf st"
      and s: "map status (registry st) = map status (registry st0)"
      and d: "map bot_id (registry st) = map bot_id (registry st0)"
      and n: "next_addr st0 \<le> next_addr st"
      and h: "\<forall>a < next_addr st0. heap st a = heap st0 a"
      by (simp_all add: steady_def)
    note r = set_bots_registry [OF w, of i f]
    have "map status (registry (set_bots i f st)) = map status (registry st)"
      using assms(2) by (simp add: r(1) comp_def)
    moreover have "map bot_id (registry (set_bots i f st)) = map bot_id (registry st)"
      using assms(2) by (simp add: r(1) comp_def)
    ultimately show ?thesis using r s d n h by auto
  qed
  then show ?thesis using assms(1) by (simp add: steady_def)
qed

lemma steady_updateBotPerformance:
  "steady st0 st \<Longrightarrow> steady st0 (updateBotPerformance i mg t st)"
  unfolding updateBotPerformance_def by (rule steady_set_bots) simp_all

lemma steady_record_sell: "steady st0 st \<Longrightarrow> steady st0 (record_sell eid ev sy pos cp pl st)"
  by (simp add: record_sell_def Let_def steady_updateBotPerformance steady_credit)

lemma steady_record_buy: "steady st0 st \<Longrightarrow> steady st0 (record_buy eid ev sy bp ta cost st)"
  unfolding record_buy_def Let_def
  by (intro steady_upd_exec steady_updateBotPerformance steady_debit) simp_all

lemma steady_multi_sell_step: "steady st0 st \<Longrightarrow> steady st0 (multi_sell_step eid ev r st)"
  unfolding multi_sell_step_def Let_def
  by (auto split: option.splits intro!: steady_upd_exec steady_record_sell)

lemma steady_multi_sells: "steady st0 st \<Longrightarrow> steady st0 (fold (multi_sell_step eid ev) rs st)"
  by (induction rs arbitrary: st) (simp_all add: steady_multi_sell_step)

lemma steady_multi_buy_step: "steady st0 st \<Longrightarrow> steady st0 (multi_buy_step eid ev r st)"
  unfolding multi_buy_step_def Let_def
  by (auto intro!: steady_upd_exec steady_record_buy)

lemma steady_multi_buy_loop: "steady st0 st \<Longrightarrow> steady st0 (multi_buy_loop eid ev rs st)"
  by (induction rs arbitrary: st) (simp_all add: steady_multi_buy_step)

lemma steady_multi_branch: "steady st0 st \<Longrightarrow> steady st0 (multi_branch eid ev buys sells st)"
  unfolding multi_branch_def
  by (intro steady_upd_exec steady_multi_buy_loop steady_multi_sells) simp_all

lemma steady_trade_on_signal: "steady st0 st \<Longrightarrow> steady st0 (snd (trade_on_signal eid ev cp sig st))"
  unfolding trade_on_signal_def Let_def
  by (auto split: option.splits intro!: steady_upd_exec steady_record_sell steady_record_buy)

lemma steady_stop_loss_check: "steady st0 st \<Longrightarrow> steady st0 (snd (stop_loss_check eid ev cp st))"
  unfolding stop_loss_check_def Let_def
  by (auto split: option.splits intro!: steady_upd_exec steady_record_sell)

lemma steady_strategy_update:
  "steady st0 st \<Longrightarrow> steady st0 (upd_exec eid (\<lambda>e. e\<lparr> strategy_obj := s \<rparr>) st)"
  by (rule steady_upd_exec) simp_all

lemma steady_single_branch: "steady st0 st \<Longrightarrow> steady st0 (snd (single_branch eid ev st))"
  by (rule single_branch_inv [where I = "steady st0"])
     (simp_all add: steady_strategy_update steady_trade_on_signal steady_stop_loss_check)

lemma steady_try_body: "steady st0 st \<Longrightarrow> steady st0 (snd (try_body eid ev st))"
  by (rule try_body_inv [where I = "steady st0"])
     (simp_all add: steady_strategy_update steady_single_branch steady_multi_branch)

lemma find_over_map: "find P (map f xs) = map_option f (find (\<lambda>x. P (f x)) xs)"
  by (induction xs) simp_all

lemma getBotById_registry:
  "find (\<lambda>b. bot_id b = i) (registry st) = map_option (heap st) (getBotById i st)"
  by (simp add: registry_def getBotById_def find_over_map)

lemma steady_cleanup_step: "steady st0 st \<Longrightarrow> steady st0 (cleanup_step eid ev entry st)"
  by (auto simp: cleanup_step_def steady_record_sell split: prod.splits option.splits)

lemma steady_cleanup_fold: "steady st0 st \<Longrightarrow> steady st0 (fold (cleanup_step eid ev) ps st)"
  by (induction ps arbitrary: st) (simp_all add: steady_cleanup_step)

lemma steady_run_cleanup:
  "steady (upd_exec eid (\<lambda>e. e\<lparr> interval_active := False \<rparr>) st) (run_cleanup eid ev st)"
proof -
  define st1 where "st1 = upd_exec eid (\<lambda>e. e\<lparr> interval_active := False \<rparr>) st"
  have "steady st1 (fold (cleanup_step eid ev) (positions (executors st1 eid)) st1)"
    by (rule steady_cleanup_fold) simp
  then have "steady st1 (upd_exec eid (\<lambda>e. e\<lparr> positions := [] \<rparr>)
                (fold (cleanup_step eid ev) (positions (executors st1 eid)) st1))"
    by (rule steady_upd_exec) simp_all
  then show ?thesis
    by (simp add: run_cleanup_def Let_def st1_def)
qed

lemma run_cleanup_facts:
  "reports (run_cleanup eid ev st) = reports st"
  "consecutiveErrors (executors (run_cleanup eid ev st) e) = consecutiveErrors (executors st e)"
  "interval_active (executors (run_cleanup eid ev st) e) = (e \<noteq> eid \<and> interval_active (executors st e))"
  "registry_wf st \<Longrightarrow> registry_wf (run_cleanup eid ev st)"
  "registry_wf st \<Longrightarrow> map status (registry (run_cleanup eid ev st)) = map status (registry st)"
  "registry_wf st \<Longrightarrow> map bot_id (registry (run_cleanup eid ev st)) = map bot_id (registry st)"
  using steady_run_cleanup [of eid st ev]
  by (auto simp: steady_def)

lemma positions_run_cleanup: "positions (executors (run_cleanup eid ev st) eid) = []"
  by (simp add: run_cleanup_def Let_def)

lemma stop_statuses_set':
  "map (status \<circ> (\<lambda>b. if bot_id b = i then b\<lparr> status := stopped \<rparr> else b)) bs
     = map (\<lambda>b. if bot_id b = i then stopped else status b) bs"
  by (induction bs) simp_all

lemma stop_ids_set':
  "map (bot_id \<circ> (\<lambda>b. if bot_id b = i then b\<lparr> status := stopped \<rparr> else b)) bs = map bot_id bs"
  by (induction bs) simp_all

lemma find_cong_ids:
  "map bot_id bs = map bot_id cs \<Longrightarrow> map status bs = map status cs \<Longrightarrow>
     map_option status (find (\<lambda>b. bot_id b = i) bs) = map_option status (find (\<lambda>b. bot_id b = i) cs)"
proof (induction bs arbitrary: cs)
  case Nil
  then show ?case by simp
next
  case (Cons b bs)
  then obtain c cs' where cs: "cs = c # cs'" by (cases cs) auto
  with Cons.prems have "bot_id b = bot_id c" "status b = status c"
    "map bot_id bs = map bot_id cs'" "map status bs = map status cs'" by auto
  then show ?case using Cons.IH [of cs'] cs by auto
qed

lemma stopped_map_cong:
  "map bot_id bs = map bot_id cs \<Longrightarrow> map status bs = map status cs \<Longrightarrow>
     map (\<lambda>b. if bot_id b = i then stopped else status b) bs
       = map (\<lambda>b. if bot_id b = i then stopped else status b) cs"
proof (induction bs arbitrary: cs)
  case Nil
  then show ?case by simp
next
  case (Cons b bs)
  then obtain c cs' where cs: "cs = c # cs'" by (cases cs) auto
  with Cons.prems have "bot_id b = bot_id c" "status b = status c"
    "map bot_id bs = map bot_id cs'" "map status bs = map status cs'" by auto
  then show ?case using Cons.IH [of cs'] cs by auto
qed

lemma stop_statuses_cong:
  assumes "map bot_id bs = map bot_id cs" and "map status bs = map status cs"
  shows "stop_statuses i bs = stop_statuses i cs" and "stop_acts i bs = stop_acts i cs"
proof -
  note m = stopped_map_cong [OF assms, of i]
  note f = find_cong_ids [OF assms, of i]
  show "stop_statuses i bs = stop_statuses i cs"
    using f m assms(2)
    by (cases "find (\<lambda>b. bot_id b = i) bs"; cases "find (\<lambda>b. bot_id b = i) cs")
       (auto simp: stop_statuses_def)
  show "stop_acts i bs = stop_acts i cs"
    using f
    by (cases "find (\<lambda>b. bot_id b = i) bs"; cases "find (\<lambda>b. bot_id b = i) cs")
       (auto simp: stop_acts_def)
qed

lemma stopBot_idle:
  "\<not> stop_acts i (registry st) \<Longrightarrow> stopBot i ev st = st"
  using getBotById_registry [of i st]
  by (cases "getBotById i st") (auto simp: stopBot_def stop_acts_def)

lemma stopBot_effect:
  assumes "registry_wf st"
  shows "map status (registry (stopBot i ev st)) = stop_statuses i (registry st)
      \<and> map bot_id (registry (stopBot i ev st)) = map bot_id (registry st)
      \<and> registry_wf (stopBot i ev st)
      \<and> reports (stopBot i ev st) = reports st @ (if stop_acts i (registry st) then [(low, Bot_stopped)] else [])
      \<and> (\<forall>e. (interval_active (executors (stopBot i ev st) e) \<longrightarrow> interval_active (executors st e))
             \<and> consecutiveErrors (executors (stopBot i ev st) e) = consecutiveErrors (executors st e))"
proof (cases "stop_acts i (registry st)")
  case False
  have "stop_statuses i (registry st) = map status (registry st)"
    using False by (auto simp: stop_statuses_def stop_acts_def split: option.splits)
  then show ?thesis
    using False assms by (simp add: stopBot_idle)
next
  case True
  then obtain a where a: "getBotById i st = Some a" "status (heap st a) = running"
    using getBotById_registry [of i st]
    by (cases "getBotById i st") (auto simp: stop_acts_def)
  define st1 where "st1 = (case cleanup (heap st a) of Some eid \<Rightarrow> run_cleanup eid ev st | None \<Rightarrow> st)"
  have st1: "registry_wf st1" "map status (registry st1) = map status (registry st)"
    "map bot_id (registry st1) = map bot_id (registry st)" "reports st1 = reports st"
    "\<forall>e. (interval_active (executors st1 e) \<longrightarrow> interval_active (executors st e))
         \<and> consecutiveErrors (executors st1 e) = consecutiveErrors (executors st e)"
    using assms by (auto simp: st1_def run_cleanup_facts split: option.splits)
  have eq: "stopBot i ev st = handleError Bot_stopped low (set_bots i (\<lambda>b. b\<lparr> status := stopped \<rparr>) st1)"
    using a by (simp add: stopBot_def st1_def Let_def)
  note r = set_bots_registry [OF st1(1), of i "\<lambda>b. b\<lparr> status := stopped \<rparr>"]
  have "stop_statuses i (registry st) = map (\<lambda>b. if bot_id b = i then stopped else status b) (registry st)"
    using True by (auto simp: stop_statuses_def stop_acts_def split: option.splits)
  moreover have "map (\<lambda>b. if bot_id b = i then stopped else status b) (registry st1)
                   = map (\<lambda>b. if bot_id b = i then stopped else status b) (registry st)"
    by (rule stopped_map_cong [OF st1(3) st1(2)])
  ultimately have "map status (registry (stopBot i ev st)) = stop_statuses i (registry st)"
    by (simp add: eq r(1) stop_statuses_set')
  moreover have "map bot_id (registry (stopBot i ev st)) = map bot_id (registry st)"
    by (simp add: eq r(1) stop_ids_set' st1(3))
  ultimately show ?thesis
    using True r(2) st1 by (simp add: eq)
qed

lemma tick_throw_eq:
  "tick_throws eid ev st \<Longrightarrow> tick eid ev st = catch_handler eid ev (snd (try_body eid ev st))"
  by (cases "try_body eid ev st"; cases "fst (try_body eid ev st)")
     (auto simp: tick_throws_def tick_def)

lemma tick_completed:
  "fst (try_body eid ev st) = Completed \<Longrightarrow> consecutiveErrors (executors (tick eid ev st) eid) = 0"
  by (cases "try_body eid ev st") (auto simp: tick_def)

lemma the_bot_steady:
  assumes "steady st0 st" and "registry_wf st0" and "bot (executors st0 eid) < next_addr st0"
  shows "the_bot eid st = the_bot eid st0"
  using assms by (simp add: steady_def the_bot_def)

lemma failure_below:
  assumes "tick_throws eid ev st" and "interval_active (executors st eid)"
    and "consecutiveErrors (executors st eid) + 1 < 5"
  shows "reports (fire eid ev st) = reports st @ [(medium, Strategy_execution_error)]
       \<and> consecutiveErrors (executors (fire eid ev st) eid) = consecutiveErrors (executors st eid) + 1
       \<and> interval_active (executors (fire eid ev st) eid)
       \<and> bot (executors (fire eid ev st) eid) = bot (executors st eid)
       \<and> (registry_wf st \<longrightarrow>
             registry_wf (fire eid ev st)
           \<and> map status (registry (fire eid ev st)) = map status (registry st)
           \<and> map bot_id (registry (fire eid ev st)) = map bot_id (registry st)
           \<and> next_addr st \<le> next_addr (fire eid ev st)
           \<and> (\<forall>a < next_addr st. heap (fire eid ev st) a = heap st a))"
proof -
  define st1 where "st1 = snd (try_body eid ev st)"
  have s: "steady st st1"
    unfolding st1_def by (rule steady_try_body) simp
  have c: "consecutiveErrors (executors st1 eid) = consecutiveErrors (executors st eid)"
    using s by (simp add: steady_def)
  have eq: "fire eid ev st = handleError Strategy_execution_error medium
              (upd_exec eid (\<lambda>e. e\<lparr> consecutiveErrors := consecutiveErrors e + 1,
                                       lastError := date_now ev \<rparr>) st1)"
    using assms c by (simp add: fire_def tick_throw_eq catch_handler_def Let_def st1_def [symmetric])
  show ?thesis
    using s assms(2) unfolding eq by (simp add: steady_def)
qed

lemma failures_run:
  "all_throw eid evs st \<Longrightarrow> interval_active (executors st eid) \<Longrightarrow>
   consecutiveErrors (executors st eid) + length evs < 5 \<Longrightarrow>
     reports (run eid evs st) = reports st @ replicate (length evs) (medium, Strategy_execution_error)
   \<and> consecutiveErrors (executors (run eid evs st) eid) = consecutiveErrors (executors st eid) + length evs
   \<and> interval_active (executors (run eid evs st) eid)
   \<and> bot (executors (run eid evs st) eid) = bot (executors st eid)
   \<and> (registry_wf st \<longrightarrow>
         registry_wf (run eid evs st)
       \<and> map status (registry (run eid evs st)) = map status (registry st)
       \<and> map bot_id (registry (run eid evs st)) = map bot_id (registry st)
       \<and> next_addr st \<le> next_addr (run eid evs st)
       \<and> (\<forall>a < next_addr st. heap (run eid evs st) a = heap st a))"
proof (induction evs arbitrary: st)
  case Nil
  then show ?case by simp
next
  case (Cons ev evs)
  have t: "tick_throws eid ev st" and rest: "all_throw eid evs (fire eid ev st)"
    using Cons.prems(1) by simp_all
  have lt: "consecutiveErrors (executors st eid) + 1 < 5" using Cons.prems(3) by simp
  note f = failure_below [OF t Cons.prems(2) lt]
  have "consecutiveErrors (executors (fire eid ev st) eid) + length evs < 5"
    using f Cons.prems(3) by simp
  note ih = Cons.IH [OF rest _ this]
  show ?case
    using f ih by (auto simp: replicate_app_Cons_same)
qed

lemma failure_at_threshold:
  assumes "tick_throws eid ev st" and "interval_active (executors st eid)"
    and "consecutiveErrors (executors st eid) + 1 \<ge> 5"
    and "registry_wf st" and "bot (executors st eid) < next_addr st"
  shows "\<not> interval_active (executors (fire eid ev st) eid)
       \<and> reports (fire eid ev st) =
           reports st @ (if stop_acts (bot_id (the_bot eid st)) (registry st) then [(low, Bot_stopped)] else [])
                      @ [(high, Stopped_after_consecutive_errors)]
       \<and> map status (registry (fire eid ev st)) = stop_statuses (bot_id (the_bot eid st)) (registry st)"
proof -
  define st1 where "st1 = snd (try_body eid ev st)"
  define st2 where "st2 = upd_exec eid (\<lambda>e. e\<lparr> interval_active := False \<rparr>)
     (upd_exec eid (\<lambda>e. e\<lparr> consecutiveErrors := consecutiveErrors e + 1, lastError := date_now ev \<rparr>) st1)"
  define i where "i = bot_id (the_bot eid st)"
  have s: "steady st st1"
    unfolding st1_def by (rule steady_try_body) simp
  have c: "consecutiveErrors (executors st1 eid) = consecutiveErrors (executors st eid)"
    using s by (simp add: steady_def)
  have b: "the_bot eid st2 = the_bot eid st"
    using the_bot_steady [OF s assms(4,5)] by (simp add: st2_def the_bot_def)
  have eq: "fire eid ev st = handleError Stopped_after_consecutive_errors high (stopBot i ev st2)"
    using assms(1-3) c b unfolding st2_def i_def st1_def
    by (simp add: fire_def tick_throw_eq catch_handler_def Let_def)
  have w2: "registry_wf st2" and r2: "registry st2 = registry st1" and p2: "reports st2 = reports st"
    and a2: "\<not> interval_active (executors st2 eid)"
    using s assms(4) by (simp_all add: st2_def steady_def)
  have m: "map bot_id (registry st2) = map bot_id (registry st)"
          "map status (registry st2) = map status (registry st)"
    using s assms(4) by (simp_all add: r2 steady_def)
  note e = stopBot_effect [OF w2, of i ev]
  note g = stop_statuses_cong [OF m, of i]
  show ?thesis
    using e a2 g p2 unfolding eq i_def [symmetric] by auto
qed

lemma run_append: "run eid (xs @ ys) st = run eid ys (run eid xs st)"
  by (induction xs arbitrary: st) simp_all

lemma all_throw_append:
  "all_throw eid (xs @ ys) st = (all_throw eid xs st \<and> all_throw eid ys (run eid xs st))"
  by (induction xs arbitrary: st) simp_all

lemma fire_cleared: "\<not> interval_active (executors st eid) \<Longrightarrow> fire eid ev st = st"
  by (simp add: fire_def)

lemma stop_statuses_no_error:
  "error \<in> set (stop_statuses i bs) \<Longrightarrow> error \<in> set (map status bs)"
  by (auto simp: stop_statuses_def split: option.splits if_splits)

lemma first_failures:
  assumes "interval_active (executors st eid)" and "consecutiveErrors (executors st eid) = 0"
    and "length evs = 5" and "all_throw eid evs st" and "k \<le> 4"
  shows "consecutiveErrors (executors (run eid (take k evs) st) eid) = k
       \<and> interval_active (executors (run eid (take k evs) st) eid)
       \<and> reports (run eid (take k evs) st) = reports st @ replicate k (medium, Strategy_execution_error)
       \<and> bot (executors (run eid (take k evs) st) eid) = bot (executors st eid)
       \<and> (registry_wf st \<longrightarrow>
             registry_wf (run eid (take k evs) st)
           \<and> map status (registry (run eid (take k evs) st)) = map status (registry st)
           \<and> map bot_id (registry (run eid (take k evs) st)) = map bot_id (registry st)
           \<and> next_addr st \<le> next_addr (run eid (take k evs) st)
           \<and> (\<forall>a < next_addr st. heap (run eid (take k evs) st) a = heap st a))"
proof -
  have "all_throw eid (take k evs @ drop k evs) st" using assms(4) by simp
  then have a: "all_throw eid (take k evs) st"
    unfolding all_throw_append by simp
  have l: "length (take k evs) = k" using assms(3,5) by simp
  have "consecutiveErrors (executors st eid) + length (take k evs) < 5"
    using assms(2,5) l by simp
  note f = failures_run [OF a assms(1) this]
  show ?thesis using f assms(2) l by simp
qed

lemma fifth_failure:
  assumes "interval_active (executors st eid)" and "consecutiveErrors (executors st eid) = 0"
    and "length evs = 5" and "all_throw eid evs st"
    and "registry_wf st" and "bot (executors st eid) < next_addr st"
  shows "\<not> interval_active (executors (run eid evs st) eid)
       \<and> reports (run eid evs st) =
           reports st @ replicate 4 (medium, Strategy_execution_error)
             @ (if stop_acts (bot_id (the_bot eid st)) (registry st) then [(low, Bot_stopped)] else [])
             @ [(high, Stopped_after_consecutive_errors)]
       \<and> map status (registry (run eid evs st)) = stop_statuses (bot_id (the_bot eid st)) (registry st)"
proof -
  define st4 where "st4 = run eid (take 4 evs) st"
  have evs: "evs = take 4 evs @ [evs ! 4]"
  proof -
    have "take (Suc 4) evs = take 4 evs @ [evs ! 4]"
      using assms(3) by (intro take_Suc_conv_app_nth) simp
    moreover have "take (Suc 4) evs = evs"
      using assms(3) by (intro take_all) simp
    ultimately show ?thesis by simp
  qed
  have r5: "run eid evs st = fire eid (evs ! 4) st4"
    by (subst evs) (simp add: run_append st4_def)
  have "all_throw eid (take 4 evs @ [evs ! 4]) st" using assms(4) evs by simp
  then have t5: "tick_throws eid (evs ! 4) st4"
    unfolding all_throw_append by (simp add: st4_def)
  note f4 = first_failures [OF assms(1-4), of 4, simplified, folded st4_def]
  have c4: "consecutiveErrors (executors st4 eid) + 1 \<ge> 5" using f4 by simp
  have b4: "bot (executors st4 eid) < next_addr st4" using f4 assms(5,6) by simp
  have tb: "the_bot eid st4 = the_bot eid st"
    using f4 assms(5,6) by (simp add: the_bot_def)
  note th = failure_at_threshold [OF t5 _ c4 _ b4]
  note g = stop_statuses_cong [of "registry st4" "registry st" "bot_id (the_bot eid st)"]
  show ?thesis
    using th f4 g assms(5) unfolding r5 tb by simp
qed

section \<open>The example run\<close>

lemmas start_defs = startBot_def getBotById_def handleError_def set_bots_def alloc_def
  createStrategy_def startStrategyExecutor_def start_failed_def createBot_def
  empty_system_def blank_bot_def grid_bot_def grid_config_def go_def live_ledger_def Let_def

lemma started_twice_registry:
  "bots started_twice = [2]" "next_addr started_twice = 3" "next_executor started_twice = 2"
  "ledger started_twice = live_ledger"
  "heap started_twice 2 = blank_bot\<lparr> bot_id := ''1'', bot_name := ''grid'', status := running,
      performance := (performance blank_bot)\<lparr> startTime := Some 0 \<rparr> \<rparr>"
  "heap started_twice (Suc 0) = blank_bot\<lparr> bot_id := ''1'', bot_name := ''grid'', status := running,
      performance := (performance blank_bot)\<lparr> startTime := Some 0 \<rparr>, cleanup := Some 1 \<rparr>"
  "heap started_twice 0 = blank_bot\<lparr> bot_id := ''1'', bot_name := ''grid'', cleanup := Some 0 \<rparr>"
  by (simp_all add: started_twice_def start_defs)

lemma started_twice_executors:
  "executors started_twice (Suc 0) =
     \<lparr> bot = Suc 0, strategy_obj = Grid (GridStrategy_new 100 0 10), positions = [], lastTradeTime = 0,
       lastError = 0, consecutiveErrors = 0, interval_active = True \<rparr>"
  "executors started_twice 0 =
     \<lparr> bot = 0, strategy_obj = Grid (GridStrategy_new 100 0 10), positions = [], lastTradeTime = 0,
       lastError = 0, consecutiveErrors = 0, interval_active = True \<rparr>"
  by (simp_all add: started_twice_def start_defs grid_parameters_def)

lemma grid_buy_signal:
  "analyze (Grid (GridStrategy_new 100 0 10)) d (Some (snapshot (market m 5 t)))
     = (Inr (Some (Str buy)), Grid (GridStrategy_new 100 0 10))"
proof -
  have "validateData (Some (snapshot (market m 5 t))) = Inr (5, [])"
    by (simp add: validateData_def snapshot_def market_def)
  then show ?thesis
    by (simp add: analyze_def Grid_analyze_even)
qed

lemmas tick_defs = fire_def tick_def try_body_def single_branch_def trade_on_signal_def
  stop_loss_check_def the_bot_def getBalance_def calculateTradeAmount_def Math_floor_def
  record_buy_def updateBotPerformance_def set_bots_def alloc_def debit_def base_currency_def
  updateBalance_def map_set_def buy_merge_def Let_def

lemma market_simps [simp]:
  "ws_isConnected (market m p t)" "ws_price (market m p t) = Some p"
  "ws_klines (market m p t) = Some []" "tm_mode (market m p t) = m" "date_now (market m p t) = t"
  by (simp_all add: market_def)

lemmas trace_defs = blank_bot_def grid_config_def live_ledger_def

lemma bought_facts:
  "positions (executors bought (Suc 0)) =
     [(''BTC/USDT'', \<lparr> entryPrice = 5, amount = 200, pos_timestamp = 61000 \<rparr>)]"
  "interval_active (executors bought (Suc 0))"
  "bots bought = [3]"
  "next_addr bought = 4"
  "status (heap bought 3) = running"
  "cleanup (heap bought 3) = None"
  "bot_id (heap bought 3) = ''1''"
  "balance (ledger bought) live ''USDT'' = Some 0"
  "balance (ledger bought) live ''BTC'' = Some 200"
  unfolding bought_def
  by (simp_all add: tick_defs started_twice_registry started_twice_executors grid_buy_signal trace_defs)

lemma twice_started_facts:
  "bots (twice_started L) = [2]" "next_addr (twice_started L) = 3"
  "ledger (twice_started L) = L"
  "heap (twice_started L) 2 = blank_bot\<lparr> bot_id := ''1'', bot_name := ''grid'', status := running,
      performance := (performance blank_bot)\<lparr> startTime := Some 0 \<rparr> \<rparr>"
  "heap (twice_started L) (Suc 0) = blank_bot\<lparr> bot_id := ''1'', bot_name := ''grid'', status := running,
      performance := (performance blank_bot)\<lparr> startTime := Some 0 \<rparr>, cleanup := Some 1 \<rparr>"
  "executors (twice_started L) (Suc 0) =
     \<lparr> bot = Suc 0, strategy_obj = Grid (GridStrategy_new 100 0 10), positions = [], lastTradeTime = 0,
       lastError = 0, consecutiveErrors = 0, interval_active = True \<rparr>"
  by (simp_all add: twice_started_def start_defs grid_parameters_def)

lemma initial_store_simps:
  "mode initial_store = demo" "balance initial_store demo = [''USDT'' \<mapsto> 100000]"
  by (simp_all add: initial_store_def DEFAULT_DEMO_BALANCE_def)

lemma demo_started_facts:
  "ledger demo_started = initial_store"
  "positions (executors demo_started (Suc 0)) = []"
  by (simp_all add: demo_started_def twice_started_facts)

lemma demo_switched_facts:
  "ledger demo_switched = initial_store"
  "bots demo_switched = [2]" "next_addr demo_switched = 3"
  "heap demo_switched (Suc 0) = blank_bot\<lparr> bot_id := ''1'', bot_name := ''grid'', status := running,
      performance := (performance blank_bot)\<lparr> startTime := Some 0 \<rparr>, cleanup := Some 1 \<rparr>"
  "heap demo_switched 2 = blank_bot\<lparr> bot_id := ''1'', bot_name := ''grid'', status := running,
      performance := (performance blank_bot)\<lparr> startTime := Some 0 \<rparr> \<rparr>"
  "executors demo_switched (Suc 0) =
     \<lparr> bot = Suc 0, strategy_obj = Grid (GridStrategy_new 100 0 10), positions = [], lastTradeTime = 0,
       lastError = 0, consecutiveErrors = 0, interval_active = True \<rparr>"
  by (simp_all add: demo_switched_def twice_started_facts setMode_def initial_store_def)

lemma demo_switched_tick:
  "balance (ledger (fire (Suc 0) (market live 5 61000) demo_switched)) demo ''USDT'' = Some 99000"
  "balance (ledger (fire (Suc 0) (market live 5 61000) demo_switched)) demo ''BTC'' = Some 200"
  "positions (executors (fire (Suc 0) (market live 5 61000) demo_switched) (Suc 0))
       = [(''BTC/USDT'', \<lparr> entryPrice = 5, amount = 200, pos_timestamp = 61000 \<rparr>)]"
  "bots (fire (Suc 0) (market live 5 61000) demo_switched) = [3]"
  "map trade_type (trades (performance (heap (fire (Suc 0) (market live 5 61000) demo_switched) 3))) = [buy]"
  by (simp_all add: tick_defs demo_switched_facts initial_store_simps grid_buy_signal blank_bot_def
        grid_config_def)

lemma analyze_keeps_single:
  "\<not> is_MultiCoin strat \<Longrightarrow> snd (analyze strat d md) = strat"
  by (cases strat) (simp_all add: analyze_def is_MultiCoin_def)

lemma invalid_try_body:
  assumes "ws_isConnected ev" and "status (the_bot eid st) = running"
    and "snapshot_invalid (Some (snapshot ev))"
    and "\<not> is_MultiCoin (strategy_obj (executors st eid))"
  shows "try_body eid ev st =
           (Thrown InvalidMarketData,
            upd_exec eid (\<lambda>e. e\<lparr> strategy_obj := strategy_obj (executors st eid) \<rparr>) st)"
proof -
  have "fst (analyze (strategy_obj (executors st eid)) (draws1 ev) (Some (snapshot ev))) = Inl InvalidMarketData"
    using assms(3,4) by (simp add: analyze_raises)
  moreover have "snd (analyze (strategy_obj (executors st eid)) (draws1 ev) (Some (snapshot ev)))
                   = strategy_obj (executors st eid)"
    using assms(4) by (rule analyze_keeps_single)
  ultimately have "analyze (strategy_obj (executors st eid)) (draws1 ev) (Some (snapshot ev))
                     = (Inl InvalidMarketData, strategy_obj (executors st eid))"
    by (simp add: prod_eq_iff)
  then show ?thesis
    using assms(1,2) by (simp add: try_body_def)
qed

lemma invalid_tick_throws:
  assumes "ws_isConnected ev" and "status (the_bot eid st) = running"
    and "snapshot_invalid (Some (snapshot ev))"
    and "\<not> is_MultiCoin (strategy_obj (executors st eid))"
  shows "tick_throws eid ev st"
  by (simp add: tick_throws_def invalid_try_body [OF assms])

lemma invalid_fire_below:
  assumes "ws_isConnected ev" and "status (the_bot eid st) = running"
    and "snapshot_invalid (Some (snapshot ev))"
    and "\<not> is_MultiCoin (strategy_obj (executors st eid))"
    and "interval_active (executors st eid)" and "consecutiveErrors (executors st eid) + 1 < 5"
  shows "fire eid ev st =
           handleError Strategy_execution_error medium
             (upd_exec eid (\<lambda>e. e\<lparr> consecutiveErrors := consecutiveErrors e + 1, lastError := date_now ev \<rparr>)
                (upd_exec eid (\<lambda>e. e\<lparr> strategy_obj := strategy_obj (executors st eid) \<rparr>) st))"
  using assms(5,6)
  by (simp add: fire_def tick_def invalid_try_body [OF assms(1-4)] catch_handler_def Let_def)

lemma all_throw_invalid:
  assumes "ws_isConnected ev" and "snapshot_invalid (Some (snapshot ev))"
  shows "status (the_bot eid st) = running \<Longrightarrow> \<not> is_MultiCoin (strategy_obj (executors st eid))
     \<Longrightarrow> interval_active (executors st eid) \<Longrightarrow> consecutiveErrors (executors st eid) + n \<le> 5
     \<Longrightarrow> all_throw eid (replicate n ev) st"
proof (induction n arbitrary: st)
  case 0
  then show ?case by simp
next
  case (Suc n)
  have t: "tick_throws eid ev st"
    by (rule invalid_tick_throws [OF assms(1) Suc.prems(1) assms(2) Suc.prems(2)])
  show ?case
  proof (cases n)
    case 0
    then show ?thesis using t by simp
  next
    case (Suc m)
    then have lt: "consecutiveErrors (executors st eid) + 1 < 5" using Suc.prems(4) by simp
    note f = invalid_fire_below [OF assms(1) Suc.prems(1) assms(2) Suc.prems(2,3) lt]
    have "all_throw eid (replicate n ev) (fire eid ev st)"
      using Suc.prems
      by (intro Suc.IH) (simp_all add: f the_bot_def)
    then show ?thesis using t by simp
  qed
qed

lemma registry_wf_started_twice: "registry_wf started_twice"
  by (simp add: registry_wf_def started_twice_registry)

lemma registry_started_twice: "map status (registry started_twice) = [running]"
  "map bot_id (registry started_twice) = [''1'']"
  by (simp_all add: registry_def started_twice_registry blank_bot_def)

lemma all_throw_started_twice: "all_throw (Suc 0) (replicate 5 no_price) started_twice"
  by (rule all_throw_invalid)
     (simp_all add: no_price_def snapshot_invalid_def snapshot_def the_bot_def
        started_twice_registry started_twice_executors is_MultiCoin_def blank_bot_def)

section \<open>Claims about the executor\<close>

text \<open>
  C4 (amended). A tick in which \<open>tradingMode.mode\<close>, as the executor's guards read it
  from the store state they hold since the executor was started, is \<open>demo\<close> changes no
  balance of the ledger, adds no entry to any position map, and records no buy trade: a
  buy record found in a trade list after the tick was in a trade list before it. The
  sales at stop time (\<open>stopBot\<close> and the cleanup function) leave the ledger alone under
  the same reading. Nothing is said about a tick whose guards read \<open>live\<close>.
\<close>

theorem demo_mode_frame:
  assumes "tm_mode ev = demo"
  shows "ledger (fire eid ev st) = ledger st
       \<and> (\<forall>e. set (positions (executors (fire eid ev st) e)) \<subseteq> set (positions (executors st e)))
       \<and> (\<forall>a t. t \<in> set (trades (performance (heap (fire eid ev st) a))) \<and> trade_type t = buy
             \<longrightarrow> (\<exists>a'. t \<in> set (trades (performance (heap st a')))))
       \<and> ledger (stopBot i ev st) = ledger st
       \<and> ledger (run_cleanup eid ev st) = ledger st"
proof -
  note s = demo_inv_start [of st]
  have "demo_inv (ledger st) (\<lambda>e. set (positions (executors st e)))
          {t. \<exists>a. t \<in> set (trades (performance (heap st a)))} (fire eid ev st)"
    by (rule demo_inv_fire [OF assms s])
  moreover have "demo_inv (ledger st) (\<lambda>e. set (positions (executors st e)))
          {t. \<exists>a. t \<in> set (trades (performance (heap st a)))} (stopBot i ev st)"
    by (rule demo_inv_stopBot [OF assms s])
  moreover have "demo_inv (ledger st) (\<lambda>e. set (positions (executors st e)))
          {t. \<exists>a. t \<in> set (trades (performance (heap st a)))} (run_cleanup eid ev st)"
    by (rule demo_inv_run_cleanup [OF assms s])
  ultimately show ?thesis
    unfolding demo_inv_def heap_ok_def bot_ok_def by blast
qed

theorem demo_mode_frame_witness:
  "tm_mode (market demo 5 61000) = demo
   \<and> mode (ledger demo_started) = demo
   \<and> ledger (fire (Suc 0) (market demo 5 61000) demo_started) = initial_store
   \<and> positions (executors (fire (Suc 0) (market demo 5 61000) demo_started) (Suc 0)) = []"
proof -
  have d: "tm_mode (market demo 5 61000) = demo" by simp
  note f = demo_mode_frame [OF d, of "Suc 0" demo_started "''1''"]
  from f have "set (positions (executors (fire (Suc 0) (market demo 5 61000) demo_started) (Suc 0)))
                 \<subseteq> set (positions (executors demo_started (Suc 0)))"
    by blast
  then have "positions (executors (fire (Suc 0) (market demo 5 61000) demo_started) (Suc 0)) = []"
    by (simp add: demo_started_facts)
  then show ?thesis
    using f by (simp add: demo_started_facts initial_store_simps)
qed

text \<open>
  C4 as stated fails when the trading mode is the mode of the store, which is the one
  \<open>updateBalance\<close> and \<open>getBalance\<close> use. The bot is started while the store is in
  live mode and the store is then switched to demo mode, with its 100000 demo USDT; the
  guards of the executor still read \<open>live\<close>. The next tick, at price 5, debits the demo
  balance by 1000 USDT, credits 200 BTC to it, opens a position and records a buy.
\<close>

theorem demo_mode_frame_counterexample:
  "mode (ledger demo_switched) = demo
   \<and> balance (ledger demo_switched) demo ''USDT'' = Some 100000
   \<and> positions (executors demo_switched (Suc 0)) = []
   \<and> tm_mode (market live 5 61000) = live
   \<and> mode (ledger (fire (Suc 0) (market live 5 61000) demo_switched)) = demo
   \<and> balance (ledger (fire (Suc 0) (market live 5 61000) demo_switched)) demo ''USDT'' = Some 99000
   \<and> balance (ledger (fire (Suc 0) (market live 5 61000) demo_switched)) demo ''BTC'' = Some 200
   \<and> positions (executors (fire (Suc 0) (market live 5 61000) demo_switched) (Suc 0))
       = [(''BTC/USDT'', \<lparr> entryPrice = 5, amount = 200, pos_timestamp = 61000 \<rparr>)]
   \<and> bots (fire (Suc 0) (market live 5 61000) demo_switched) = [3]
   \<and> map trade_type (trades (performance (heap (fire (Suc 0) (market live 5 61000) demo_switched) 3)))
       = [buy]"
proof -
  have "mode (ledger (fire (Suc 0) (market live 5 61000) demo_switched)) = demo"
    by (simp add: tick_defs demo_switched_facts initial_store_simps grid_buy_signal blank_bot_def
          grid_config_def)
  then show ?thesis
    by (simp add: demo_switched_tick demo_switched_facts initial_store_simps)
qed

text \<open>
  C2 (amended). When five consecutive ticks of an executor each throw, the counter being 0
  before the first: each of the first four failures only increments the counter and
  emits one medium-severity report, leaving the timer and the statuses of the registry as
  they were; on the fifth the timer is cleared, so that no further tick runs,
  \<open>stopBot\<close> is called with the bot's id, which sets the status to \<open>stopped\<close> when
  the registry's bot was running and changes no status otherwise, and one high-severity
  report is emitted, after the low-severity report of \<open>stopBot\<close>. No status becomes
  \<open>error\<close>. A tick whose body completes resets the counter to 0.
\<close>

theorem circuit_breaker:
  assumes "interval_active (executors st eid)" and "consecutiveErrors (executors st eid) = 0"
    and "length evs = 5" and "all_throw eid evs st"
    and "registry_wf st" and "bot (executors st eid) < next_addr st"
  shows "(\<forall>k \<le> 4.
            consecutiveErrors (executors (run eid (take k evs) st) eid) = k
          \<and> interval_active (executors (run eid (take k evs) st) eid)
          \<and> reports (run eid (take k evs) st) = reports st @ replicate k (medium, Strategy_execution_error)
          \<and> map status (registry (run eid (take k evs) st)) = map status (registry st))
       \<and> \<not> interval_active (executors (run eid evs st) eid)
       \<and> (\<forall>ev. fire eid ev (run eid evs st) = run eid evs st)
       \<and> reports (run eid evs st) =
           reports st @ replicate 4 (medium, Strategy_execution_error)
             @ (if stop_acts (bot_id (the_bot eid st)) (registry st) then [(low, Bot_stopped)] else [])
             @ [(high, Stopped_after_consecutive_errors)]
       \<and> map status (registry (run eid evs st)) = stop_statuses (bot_id (the_bot eid st)) (registry st)
       \<and> (error \<in> set (map status (registry (run eid evs st))) \<longrightarrow> error \<in> set (map status (registry st)))
       \<and> (\<forall>ev' st'. fst (try_body eid ev' st') = Completed
             \<longrightarrow> consecutiveErrors (executors (tick eid ev' st') eid) = 0)"
proof -
  note first = first_failures [OF assms(1-4)]
  note last = fifth_failure [OF assms]
  have "\<forall>k \<le> 4.
            consecutiveErrors (executors (run eid (take k evs) st) eid) = k
          \<and> interval_active (executors (run eid (take k evs) st) eid)
          \<and> reports (run eid (take k evs) st) = reports st @ replicate k (medium, Strategy_execution_error)
          \<and> map status (registry (run eid (take k evs) st)) = map status (registry st)"
    using first assms(5) by blast
  moreover have "\<forall>ev. fire eid ev (run eid evs st) = run eid evs st"
    using last by (simp add: fire_cleared)
  moreover have "error \<in> set (map status (registry (run eid evs st)))
                   \<longrightarrow> error \<in> set (map status (registry st))"
    using last stop_statuses_no_error by metis
  ultimately show ?thesis
    using last tick_completed by blast
qed

theorem circuit_breaker_witness:
  "interval_active (executors started_twice (Suc 0))
   \<and> consecutiveErrors (executors started_twice (Suc 0)) = 0
   \<and> length (replicate 5 no_price) = 5
   \<and> all_throw (Suc 0) (replicate 5 no_price) started_twice
   \<and> registry_wf started_twice
   \<and> bot (executors started_twice (Suc 0)) < next_addr started_twice
   \<and> \<not> interval_active (executors (run (Suc 0) (replicate 5 no_price) started_twice) (Suc 0))
   \<and> reports (run (Suc 0) (replicate 5 no_price) started_twice) =
        reports started_twice @ replicate 4 (medium, Strategy_execution_error)
          @ [(low, Bot_stopped), (high, Stopped_after_consecutive_errors)]
   \<and> map status (registry (run (Suc 0) (replicate 5 no_price) started_twice)) = [stopped]"
  using circuit_breaker [of started_twice "Suc 0" "replicate 5 no_price"]
    all_throw_started_twice registry_wf_started_twice registry_started_twice
  by (simp add: started_twice_executors started_twice_registry stop_statuses_def stop_acts_def
        registry_def the_bot_def blank_bot_def)

text \<open>
  C2 as stated fails: after five ticks that throw (the price is missing) the bot that was
  running has the status \<open>stopped\<close>, not \<open>error\<close>.
\<close>

theorem circuit_breaker_counterexample:
  "all_throw (Suc 0) (replicate 5 no_price) started_twice
   \<and> map status (registry started_twice) = [running]
   \<and> map status (registry (run (Suc 0) (replicate 5 no_price) started_twice)) = [stopped]
   \<and> map status (registry (run (Suc 0) (replicate 5 no_price) started_twice)) \<noteq> [error]"
  using fifth_failure [of started_twice "Suc 0" "replicate 5 no_price"]
    all_throw_started_twice registry_wf_started_twice registry_started_twice
  by (simp add: started_twice_executors started_twice_registry stop_statuses_def stop_acts_def
        registry_def the_bot_def blank_bot_def)

text \<open>
  C1. After \<open>stopBot\<close> returns for a bot that was running no position should remain
  open. The source does not achieve this: \<open>startBot\<close> stores the cleanup function on
  the object it fetched before \<open>set\<close> replaced that object in the registry by a copy,
  so \<open>stopBot\<close> finds no cleanup on the registry's bot. In the example run (create,
  start, start again, one tick at price 5) the bot is running and holds 200 BTC bought at
  5; after \<open>stopBot\<close> its status is \<open>stopped\<close>, the position is still in the
  executor's map and the timer is still active. (When the cleanup function does run, it
  empties the map: \<open>positions_run_cleanup\<close>.)
\<close>

theorem stop_leaves_position_open:
  "bought = fire (Suc 0) (market live 5 61000)
              (startBot ''1'' go (startBot ''1'' go (createBot grid_bot ''1'' 0 empty_system)))
   \<and> map status (registry bought) = [running]
   \<and> positions (executors (stopBot ''1'' (market live 5 62000) bought) (Suc 0))
       = [(''BTC/USDT'', \<lparr> entryPrice = 5, amount = 200, pos_timestamp = 61000 \<rparr>)]
   \<and> interval_active (executors (stopBot ''1'' (market live 5 62000) bought) (Suc 0))
   \<and> map status (registry (stopBot ''1'' (market live 5 62000) bought)) = [stopped]"
proof -
  have w: "registry_wf bought"
    by (simp add: registry_wf_def bought_facts)
  have g: "getBotById ''1'' bought = Some 3"
    by (simp add: getBotById_def bought_facts)
  have e: "executors (stopBot ''1'' (market live 5 62000) bought) = executors bought"
    by (simp add: stopBot_def g bought_facts Let_def)
  have r: "map status (registry bought) = [running]" "map bot_id (registry bought) = [''1'']"
    by (simp_all add: registry_def bought_facts)
  have "stop_statuses ''1'' (registry bought) = [stopped]"
    using r by (auto simp: stop_statuses_def registry_def bought_facts)
  moreover have "bought = fire (Suc 0) (market live 5 61000)
              (startBot ''1'' go (startBot ''1'' go (createBot grid_bot ''1'' 0 empty_system)))"
    by (simp only: bought_def started_twice_def)
  ultimately show ?thesis
    using stopBot_effect [OF w, of "''1''" "market live 5 62000"] r
    by (simp add: e bought_facts)
qed

end
